(* ===== verification/FTL_Prelude.thy ===== *)
theory FTL_Prelude
  imports Main "HOL-Library.Signed_Division"
begin

text \<open>
  Shared vocabulary of the flash translation layer development: the type that stands
  for the C++ \<open>int\<close> of \<^verbatim>\<open>src/ftl.cpp\<close>, the collection of geometry facts the
  component proofs unfold, and generic lemmas on C++ truncating division, on lists of
  equally long rows (the two-level \<open>std::vector\<close> of blocks and pages) and on maps
  used as the \<open>std::map\<close> of the logical-to-physical table.
\<close>

section \<open>Types and collections\<close>

text \<open>
  \<open>cint\<close> is the C++ \<open>int\<close> of the source. The program never applies arithmetic
  to a logical block address or to a data value (they are only copied, compared and
  printed), and the only computed integers, physical addresses and loop counters, are
  proved to stay in \<open>[0, 16)\<close> (see \<open>Flash.encode_addr_bounds\<close>), so unbounded
  \<open>int\<close> and 32-bit \<open>int\<close> agree on every value the program computes.
\<close>

type_synonym cint = int

named_theorems ftl_geometry "the fixed geometry constants of the simulated flash"

text \<open>
  \<open>uniform_rows n xss\<close>: every row of \<open>xss\<close> has length \<open>n\<close>, the shape of the
  two-level \<open>std::vector\<close> of blocks and pages. \<open>map_injective m\<close>: no two keys of
  \<open>m\<close> share a value; an FTL table must not send two logical addresses to one page.
\<close>

definition uniform_rows :: "nat \<Rightarrow> 'a list list \<Rightarrow> bool" where
  "uniform_rows n xss \<longleftrightarrow> list_all (\<lambda>xs. length xs = n) xss"

definition map_injective :: "('k \<rightharpoonup> 'v) \<Rightarrow> bool" where
  "map_injective m \<longleftrightarrow> (\<forall>k k' v. m k = Some v \<longrightarrow> m k' = Some v \<longrightarrow> k = k')"


section \<open>C++ division on non-negative operands\<close>

text \<open>
  C++ \<open>/\<close> and \<open>%\<close> truncate towards zero; they are \<open>sdiv\<close> and \<open>smod\<close> of
  \<open>HOL-Library.Signed_Division\<close>. On a non-negative dividend and a positive divisor
  they coincide with HOL's \<open>div\<close> and \<open>mod\<close>.
\<close>

lemma sdiv_nonneg_eq_div:
  assumes "0 \<le> a" and "0 < n"
  shows "(a::int) sdiv n = a div n"
  using assms by (cases "a = 0") (simp_all add: signed_divide_int_def sgn_if)

lemma smod_nonneg_eq_mod:
  assumes "0 \<le> a" and "0 < n"
  shows "(a::int) smod n = a mod n"
  using assms by (cases "a = 0") (simp_all add: signed_modulo_int_def sgn_if)

section \<open>Lists of equally long rows\<close>

lemma uniform_rows_nth:
  "uniform_rows n xss \<Longrightarrow> i < length xss \<Longrightarrow> length (xss ! i) = n"
  by (simp add: uniform_rows_def list_all_length)

lemma uniform_rows_update:
  "uniform_rows n xss \<Longrightarrow> length xs = n \<Longrightarrow> uniform_rows n (xss[i := xs])"
  by (auto simp: uniform_rows_def list_all_iff dest: set_update_subset_insert [THEN subsetD])

lemma length_concat_uniform:
  "uniform_rows n xss \<Longrightarrow> length (concat xss) = length xss * n"
  by (induction xss) (simp_all add: uniform_rows_def)

lemma nth_concat_uniform:
  assumes "uniform_rows n xss" and "i < length xss" and "j < n"
  shows "concat xss ! (i * n + j) = xss ! i ! j"
  using assms
proof (induction xss arbitrary: i)
  case Nil
  then show ?case by simp
next
  case (Cons xs xss)
  then have len: "length xs = n" and rest: "uniform_rows n xss"
    by (simp_all add: uniform_rows_def)
  show ?case
  proof (cases i)
    case 0
    with Cons.prems len show ?thesis by (simp add: nth_append)
  next
    case (Suc i')
    with Cons.prems have "i' < length xss" by simp
    with Cons.IH [OF rest this Cons.prems(3)] Suc len show ?thesis
      by (simp add: nth_append)
  qed
qed

section \<open>Index arithmetic of a two-level address\<close>

lemma div_mod_eq_iff:
  "(a::nat) div n = a' div n \<and> a mod n = a' mod n \<longleftrightarrow> a = a'"
  by (metis div_mult_mod_eq)

lemma addr_split_less:
  assumes "(a::nat) < m * n"
  shows "a div n < m" and "a mod n < n"
proof -
  from assms have "0 < n" by (cases n) simp_all
  then show "a mod n < n" by simp
  from assms show "a div n < m"
    by (simp add: less_mult_imp_div_less mult.commute)
qed

lemma addr_join_less:
  assumes "(b::nat) < m" and "p < n"
  shows "b * n + p < m * n"
proof -
  from assms(1) have "Suc b \<le> m" by simp
  then have "Suc b * n \<le> m * n" by (rule mult_le_mono1)
  with assms(2) show ?thesis by simp
qed

section \<open>Maps as the logical-to-physical table\<close>

text \<open>
  A \<open>std::map\<close> keyed by the logical address is a HOL map. The table of an FTL must
  not send two keys to one physical page: that is injectivity on the domain.
\<close>

lemma map_injective_empty [simp]: "map_injective Map.empty"
  by (simp add: map_injective_def)

lemma map_injective_upd:
  assumes "map_injective m" and "v \<notin> ran m"
  shows "map_injective (m(k \<mapsto> v))"
  using assms unfolding map_injective_def by (auto simp: ran_def)

lemma ran_upd_subset: "ran (m(k \<mapsto> v)) \<subseteq> insert v (ran m)"
  by (auto simp: ran_def)

lemma card_ran_le_card_dom:
  "finite (dom m) \<Longrightarrow> card (ran m) \<le> card (dom m)"
proof -
  assume fin: "finite (dom m)"
  have "ran m = (\<lambda>k. the (m k)) ` dom m"
    by (force simp: ran_def dom_def)
  with fin show ?thesis by (simp add: card_image_le)
qed

lemma card_ran_eq_card_dom:
  assumes "finite (dom m)" and "map_injective m"
  shows "card (ran m) = card (dom m)"
proof -
  have im: "ran m = (\<lambda>k. the (m k)) ` dom m"
    by (force simp: ran_def dom_def)
  have "inj_on (\<lambda>k. the (m k)) (dom m)"
    using assms(2) by (auto simp: inj_on_def map_injective_def dom_def)
  with im show ?thesis by (simp add: card_image)
qed

section \<open>Options of pairs\<close>

lemma Some_pair_collapse: "x \<noteq> None \<Longrightarrow> x = Some (fst (the x), snd (the x))"
  by auto

end
