(* ===== verification/Flash.thy ===== *)
theory Flash
  imports FTL_Prelude
begin

text \<open>
  The physical flash of \<^verbatim>\<open>src/ftl.cpp\<close>: the geometry constants (lines 6--8), the
  \<open>PhysicalPage\<close> and \<open>Block\<close> structs (lines 10--23), the address arithmetic that
  packs a (block, page) pair into one \<open>int\<close> (line 56) and unpacks it again (lines
  69--70 and 80--81), and the indexed page accesses \<open>flash_memory[b].pages[p]\<close>.
  An access whose index comes from the mapping table is checked (\<open>page_ok\<close>): out of
  range it is undefined behaviour in C++, and the operations that make it return
  \<open>None\<close> there.
\<close>

section \<open>Geometry\<close>

definition TOTAL_BLOCKS :: nat where
  "TOTAL_BLOCKS = 4"

definition PAGES_PER_BLOCK :: nat where
  "PAGES_PER_BLOCK = 4"

definition INVALID_ADDR :: cint where
  "INVALID_ADDR = -1"

text \<open>The number of physical pages; a name of this development, not of the source.\<close>

definition NUM_PAGES :: nat where
  "NUM_PAGES = TOTAL_BLOCKS * PAGES_PER_BLOCK"

declare TOTAL_BLOCKS_def [ftl_geometry] PAGES_PER_BLOCK_def [ftl_geometry]
  NUM_PAGES_def [ftl_geometry]

section \<open>Pages and blocks\<close>

record PhysicalPage =
  data :: cint
  is_valid :: bool
  is_free :: bool

text \<open>The default member initialisers of \<open>PhysicalPage\<close> (lines 12--14).\<close>

definition default_page :: PhysicalPage where
  "default_page = \<lparr>data = 0, is_valid = False, is_free = True\<rparr>"

record Block =
  pages :: "PhysicalPage list"
  erase_count :: cint

text \<open>The constructor \<open>Block() : pages(PAGES_PER_BLOCK) {}\<close> (line 22), with
  \<open>erase_count = 0\<close> from line 20.\<close>

definition new_block :: Block where
  "new_block = \<lparr>pages = replicate PAGES_PER_BLOCK default_page, erase_count = 0\<rparr>"

text \<open>
  The three states of the specification's lifecycle read off the two flags of a page;
  a page both free and valid is a fourth combination the source never produces
  (\<open>FTL_Invariant\<close> proves it).
\<close>

datatype page_state = Free | Valid | Stale | Torn

definition state_of :: "PhysicalPage \<Rightarrow> page_state" where
  "state_of pg =
     (if is_free pg then (if is_valid pg then Torn else Free)
      else if is_valid pg then Valid else Stale)"

section \<open>Addresses\<close>

text \<open>\<open>int physical_addr = (b * PAGES_PER_BLOCK) + p;\<close> (line 56).\<close>

definition encode_addr :: "nat \<Rightarrow> nat \<Rightarrow> cint" where
  "encode_addr b p = int (b * PAGES_PER_BLOCK + p)"

text \<open>\<open>int b = phys_addr / PAGES_PER_BLOCK; int p = phys_addr % PAGES_PER_BLOCK;\<close>
  (lines 69--70 and 80--81), with C++ truncating division.\<close>

definition block_of :: "cint \<Rightarrow> cint" where
  "block_of phys_addr = phys_addr sdiv int PAGES_PER_BLOCK"

definition page_of :: "cint \<Rightarrow> cint" where
  "page_of phys_addr = phys_addr smod int PAGES_PER_BLOCK"

section \<open>Indexed access to the flash array\<close>

text \<open>
  \<open>flash_memory[b].pages[p]\<close> is in range when both indices are: \<open>page_ok\<close>.
  \<open>get_page\<close> reads the page and \<open>map_page\<close> changes it in place by a function;
  both are only used where the indices are in range.
\<close>

definition page_ok :: "Block list \<Rightarrow> cint \<Rightarrow> cint \<Rightarrow> bool" where
  "page_ok fm b p \<longleftrightarrow>
     0 \<le> b \<and> nat b < length fm \<and> 0 \<le> p \<and> nat p < length (pages (fm ! nat b))"

definition get_page :: "Block list \<Rightarrow> cint \<Rightarrow> cint \<Rightarrow> PhysicalPage" where
  "get_page fm b p = pages (fm ! nat b) ! nat p"

definition map_page ::
  "(PhysicalPage \<Rightarrow> PhysicalPage) \<Rightarrow> cint \<Rightarrow> cint \<Rightarrow> Block list \<Rightarrow> Block list" where
  "map_page f b p fm =
     fm[nat b := (fm ! nat b)\<lparr>pages := (pages (fm ! nat b))[nat p := f (get_page fm b p)]\<rparr>]"

text \<open>
  The flat view used by the proofs: the page at physical address \<open>a\<close>, and the shape of
  a well-formed flash array (\<open>TOTAL_BLOCKS\<close> blocks of \<open>PAGES_PER_BLOCK\<close> pages).
\<close>

definition page_at :: "Block list \<Rightarrow> nat \<Rightarrow> PhysicalPage" where
  "page_at fm a = pages (fm ! (a div PAGES_PER_BLOCK)) ! (a mod PAGES_PER_BLOCK)"

definition wf_flash :: "Block list \<Rightarrow> bool" where
  "wf_flash fm \<longleftrightarrow>
     length fm = TOTAL_BLOCKS \<and> uniform_rows PAGES_PER_BLOCK (map pages fm)"

definition new_flash :: "Block list" where
  "new_flash = replicate TOTAL_BLOCKS new_block"

section \<open>Geometry facts\<close>

lemma PAGES_PER_BLOCK_pos [simp]: "0 < PAGES_PER_BLOCK"
  by (simp add: PAGES_PER_BLOCK_def)

lemma TOTAL_BLOCKS_pos [simp]: "0 < TOTAL_BLOCKS"
  by (simp add: TOTAL_BLOCKS_def)

lemma NUM_PAGES_pos [simp]: "0 < NUM_PAGES"
  by (simp add: NUM_PAGES_def)

lemma addr_div_less [simp]: "a < NUM_PAGES \<Longrightarrow> a div PAGES_PER_BLOCK < TOTAL_BLOCKS"
  unfolding NUM_PAGES_def by (rule addr_split_less(1))

lemma addr_mod_less [simp]: "a mod PAGES_PER_BLOCK < PAGES_PER_BLOCK"
  by simp

lemma addr_join_less_NUM_PAGES:
  "b < TOTAL_BLOCKS \<Longrightarrow> p < PAGES_PER_BLOCK \<Longrightarrow> b * PAGES_PER_BLOCK + p < NUM_PAGES"
  unfolding NUM_PAGES_def by (rule addr_join_less)

lemma addr_join_div [simp]:
  "p < PAGES_PER_BLOCK \<Longrightarrow> (b * PAGES_PER_BLOCK + p) div PAGES_PER_BLOCK = b"
  by simp

lemma addr_join_mod [simp]:
  "p < PAGES_PER_BLOCK \<Longrightarrow> (b * PAGES_PER_BLOCK + p) mod PAGES_PER_BLOCK = p"
  by simp

lemma addr_join_eq_iff:
  assumes "p < PAGES_PER_BLOCK"
  shows "a = b * PAGES_PER_BLOCK + p \<longleftrightarrow>
         a div PAGES_PER_BLOCK = b \<and> a mod PAGES_PER_BLOCK = p"
  using assms div_mod_eq_iff [of a PAGES_PER_BLOCK "b * PAGES_PER_BLOCK + p"] by auto

section \<open>Address encoding and decoding\<close>

lemma block_of_int [simp]: "block_of (int a) = int (a div PAGES_PER_BLOCK)"
  by (simp add: block_of_def sdiv_nonneg_eq_div zdiv_int)

lemma page_of_int [simp]: "page_of (int a) = int (a mod PAGES_PER_BLOCK)"
  by (simp add: page_of_def smod_nonneg_eq_mod zmod_int)

lemma block_of_nonneg: "0 \<le> a \<Longrightarrow> 0 \<le> block_of a"
  by (metis block_of_int nonneg_int_cases of_nat_0_le_iff)

lemma page_of_nonneg: "0 \<le> a \<Longrightarrow> 0 \<le> page_of a"
  by (metis page_of_int nonneg_int_cases of_nat_0_le_iff)

lemma encode_addr_nonneg [simp]: "0 \<le> encode_addr b p"
  by (simp add: encode_addr_def)

lemma nat_encode_addr [simp]: "nat (encode_addr b p) = b * PAGES_PER_BLOCK + p"
  by (simp only: encode_addr_def nat_int)

section \<open>The flat view of the flash array\<close>

lemma wf_flash_length [simp]: "wf_flash fm \<Longrightarrow> length fm = TOTAL_BLOCKS"
  by (simp add: wf_flash_def)

lemma wf_flash_pages_length [simp]:
  "wf_flash fm \<Longrightarrow> b < TOTAL_BLOCKS \<Longrightarrow> length (pages (fm ! b)) = PAGES_PER_BLOCK"
  using uniform_rows_nth [of PAGES_PER_BLOCK "map pages fm" b] by (simp add: wf_flash_def)

lemma get_page_int:
  "get_page fm (int b) (int p) = pages (fm ! b) ! p"
  by (simp add: get_page_def)

lemma get_page_page_at:
  "get_page fm (int (a div PAGES_PER_BLOCK)) (int (a mod PAGES_PER_BLOCK)) = page_at fm a"
  by (simp add: get_page_def page_at_def)

lemma page_at_join:
  "p < PAGES_PER_BLOCK \<Longrightarrow> page_at fm (b * PAGES_PER_BLOCK + p) = pages (fm ! b) ! p"
  by (simp add: page_at_def)

lemma page_ok_int_iff:
  assumes "wf_flash fm"
  shows "page_ok fm (int (a div PAGES_PER_BLOCK)) (int (a mod PAGES_PER_BLOCK)) \<longleftrightarrow>
         a < NUM_PAGES"
proof
  assume "a < NUM_PAGES"
  with assms show "page_ok fm (int (a div PAGES_PER_BLOCK)) (int (a mod PAGES_PER_BLOCK))"
    by (simp add: page_ok_def)
next
  assume "page_ok fm (int (a div PAGES_PER_BLOCK)) (int (a mod PAGES_PER_BLOCK))"
  with assms have "a div PAGES_PER_BLOCK < TOTAL_BLOCKS" by (simp add: page_ok_def)
  then show "a < NUM_PAGES"
    using addr_join_less_NUM_PAGES [of "a div PAGES_PER_BLOCK" "a mod PAGES_PER_BLOCK"]
    by simp
qed

lemma map_page_beyond: "\<not> nat b < length fm \<Longrightarrow> map_page f b p fm = fm"
  by (simp add: map_page_def list_update_beyond)

lemma wf_flash_map_page:
  assumes "wf_flash fm"
  shows "wf_flash (map_page f b p fm)"
proof (cases "nat b < length fm")
  case True
  with assms have "length (pages (fm ! nat b)) = PAGES_PER_BLOCK" by simp
  with True assms show ?thesis
    by (simp add: wf_flash_def map_page_def map_update uniform_rows_update)
next
  case False
  with assms show ?thesis by (simp add: map_page_beyond)
qed

lemma erase_count_map_page:
  "map erase_count (map_page f b p fm) = map erase_count fm"
proof (cases "nat b < length fm")
  case True
  then have "(map erase_count fm)[nat b := erase_count (fm ! nat b)] = map erase_count fm"
    by (metis length_map list_update_id nth_map)
  then show ?thesis by (simp add: map_page_def map_update)
next
  case False
  then show ?thesis by (simp add: map_page_beyond)
qed

lemma page_at_map_page:
  assumes wf: "wf_flash fm" and b: "b < TOTAL_BLOCKS" and p: "p < PAGES_PER_BLOCK"
    and a: "a < NUM_PAGES"
  shows "page_at (map_page f (int b) (int p) fm) a =
         (if a = b * PAGES_PER_BLOCK + p then f (page_at fm (b * PAGES_PER_BLOCK + p))
          else page_at fm a)"
proof -
  have lenb: "length (pages (fm ! b)) = PAGES_PER_BLOCK"
    using wf b by simp
  have old: "get_page fm (int b) (int p) = page_at fm (b * PAGES_PER_BLOCK + p)"
    using p by (simp add: get_page_int page_at_join)
  show ?thesis
    using wf b p a lenb old
    by (simp add: map_page_def page_at_def addr_join_eq_iff nth_list_update)
qed

lemma page_at_map_page_addr:
  assumes "wf_flash fm" and "a < NUM_PAGES" and "a' < NUM_PAGES"
  shows "page_at (map_page f (int (a div PAGES_PER_BLOCK)) (int (a mod PAGES_PER_BLOCK)) fm) a' =
         (if a' = a then f (page_at fm a) else page_at fm a')"
  using page_at_map_page [OF assms(1) addr_div_less [OF assms(2)] addr_mod_less assms(3)]
  by simp

lemma wf_new_flash: "wf_flash new_flash"
  by (simp add: wf_flash_def new_flash_def new_block_def uniform_rows_def list_all_iff)

lemma page_at_new_flash:
  "a < NUM_PAGES \<Longrightarrow> page_at new_flash a = default_page"
  by (simp add: page_at_def new_flash_def new_block_def)

section \<open>Page states\<close>

lemma state_of_iff:
  "state_of pg = Free \<longleftrightarrow> is_free pg \<and> \<not> is_valid pg"
  "state_of pg = Valid \<longleftrightarrow> \<not> is_free pg \<and> is_valid pg"
  "state_of pg = Stale \<longleftrightarrow> \<not> is_free pg \<and> \<not> is_valid pg"
  "state_of pg = Torn \<longleftrightarrow> is_free pg \<and> is_valid pg"
  by (simp_all add: state_of_def)

section \<open>Decoding a negative address\<close>

text \<open>C++ division truncates: \<open>-1 / 4 = 0\<close> but \<open>-1 % 4 = -1\<close>. A negative address
  never decodes to a non-negative block and page both.\<close>

lemma decode_negative:
  assumes "a < 0"
  shows "\<not> (0 \<le> block_of a \<and> 0 \<le> page_of a)"
proof
  assume h: "0 \<le> block_of a \<and> 0 \<le> page_of a"
  have n: "(0::int) < int PAGES_PER_BLOCK" by simp
  have b: "block_of a = - (\<bar>a\<bar> div int PAGES_PER_BLOCK)"
    using assms n by (simp add: block_of_def signed_divide_int_def)
  have p: "page_of a = - (\<bar>a\<bar> mod int PAGES_PER_BLOCK)"
    using assms by (simp add: page_of_def signed_modulo_int_def)
  have "0 \<le> \<bar>a\<bar> div int PAGES_PER_BLOCK"
    using pos_imp_zdiv_nonneg_iff [OF n, of "\<bar>a\<bar>"] by simp
  with h b have "\<bar>a\<bar> div int PAGES_PER_BLOCK = 0" by simp
  moreover have "0 \<le> \<bar>a\<bar> mod int PAGES_PER_BLOCK"
    using n by (rule pos_mod_sign)
  with h p have "\<bar>a\<bar> mod int PAGES_PER_BLOCK = 0" by simp
  ultimately have "\<bar>a\<bar> = 0"
    using div_mult_mod_eq [of "\<bar>a\<bar>" "int PAGES_PER_BLOCK"] by simp
  with assms show False by simp
qed

lemma page_ok_decode_iff:
  assumes "wf_flash fm"
  shows "page_ok fm (block_of a) (page_of a) \<longleftrightarrow> 0 \<le> a \<and> a < int NUM_PAGES"
proof (cases "0 \<le> a")
  case True
  then obtain n where a: "a = int n" by (metis nonneg_int_cases)
  with assms show ?thesis by (simp add: page_ok_int_iff)
next
  case False
  then show ?thesis using decode_negative [of a] by (auto simp: page_ok_def)
qed

section \<open>Address round trip and bounds\<close>

text \<open>C10: splitting the address that \<open>write_data\<close> stores (line 56) with the C++
  division of \<open>invalidate_old_page\<close> and \<open>read_data\<close> (lines 69--70, 80--81) gives
  back the block and the page it was built from.\<close>

theorem decode_encode:
  assumes "p < PAGES_PER_BLOCK"
  shows "block_of (encode_addr b p) = int b \<and> page_of (encode_addr b p) = int p"
proof -
  have "encode_addr b p = int (b * PAGES_PER_BLOCK + p)" by (simp only: encode_addr_def)
  then show ?thesis
    using assms by (simp only: block_of_int page_of_int addr_join_div addr_join_mod simp_thms)
qed

theorem decode_encode_witness:
  "(3::nat) < PAGES_PER_BLOCK \<and> block_of (encode_addr 2 3) = 2 \<and> page_of (encode_addr 2 3) = 3"
  using decode_encode [of 3 2] by (simp add: PAGES_PER_BLOCK_def)

text \<open>C11: an address built from loop counters in range is a page of the flash, and
  it fits the 32-bit \<open>int\<close> of the source.\<close>

theorem encode_addr_bounds:
  assumes "b < TOTAL_BLOCKS" and "p < PAGES_PER_BLOCK"
  shows "0 \<le> encode_addr b p \<and> encode_addr b p < int NUM_PAGES \<and> encode_addr b p < 2 ^ 31"
proof -
  have "b * PAGES_PER_BLOCK + p < NUM_PAGES"
    using assms by (rule addr_join_less_NUM_PAGES)
  then have "b * PAGES_PER_BLOCK + p < 16" by (simp add: ftl_geometry)
  then show ?thesis unfolding encode_addr_def NUM_PAGES_def by (simp add: ftl_geometry)
qed

theorem encode_addr_bounds_witness:
  "(3::nat) < TOTAL_BLOCKS \<and> (3::nat) < PAGES_PER_BLOCK \<and>
   0 \<le> encode_addr 3 3 \<and> encode_addr 3 3 < int NUM_PAGES \<and> encode_addr 3 3 < 2 ^ 31"
  using encode_addr_bounds [of 3 3] by (simp add: TOTAL_BLOCKS_def PAGES_PER_BLOCK_def)

end
