(* ===== verification/Allocation.thy ===== *)
theory Allocation
  imports Flash
begin

text \<open>
  The allocation policy of \<^verbatim>\<open>src/ftl.cpp\<close>: the two nested \<open>for\<close> loops of
  \<open>write_data\<close> (lines 44--63) scan the blocks in order and the pages of each block
  in order and stop at the first page whose \<open>is_free\<close> flag is set. The loops are one
  recursive function, \<open>find_free_page\<close>, whose two counters are the loop variables
  \<open>b\<close> and \<open>p\<close>; termination is by the lexicographic measure the nested loops
  have. The reference definition \<open>first_free\<close> is first fit over the flat page
  addresses \<open>0, 1, \<dots>, NUM_PAGES - 1\<close>, and the loop computes exactly it.
\<close>

section \<open>The search loop\<close>

function find_free_page :: "Block list \<Rightarrow> nat \<Rightarrow> nat \<Rightarrow> (nat \<times> nat) option" where
  "find_free_page fm b p =
     (if b < TOTAL_BLOCKS then
        (if p < PAGES_PER_BLOCK then
           (if is_free (pages (fm ! b) ! p) then Some (b, p)
            else find_free_page fm b (Suc p))
         else find_free_page fm (Suc b) 0)
      else None)"
  by pat_completeness auto
termination
  by (relation "measures [\<lambda>(fm, b, p). TOTAL_BLOCKS - b, \<lambda>(fm, b, p). PAGES_PER_BLOCK - p]")
    auto

declare find_free_page.simps [simp del]

section \<open>First fit over flat addresses\<close>

definition first_free :: "Block list \<Rightarrow> nat option" where
  "first_free fm = find (\<lambda>a. is_free (page_at fm a)) [0..<NUM_PAGES]"

definition split_addr :: "nat \<Rightarrow> nat \<times> nat" where
  "split_addr a = (a div PAGES_PER_BLOCK, a mod PAGES_PER_BLOCK)"

section \<open>The loop is first fit\<close>

text \<open>
  The loop at counters \<open>(b, p)\<close> searches the flat addresses from
  \<open>b * PAGES_PER_BLOCK + p\<close> on; computation induction follows its three calls.
\<close>

lemma find_free_page_find:
  "p \<le> PAGES_PER_BLOCK \<Longrightarrow>
   find_free_page fm b p =
     map_option split_addr
       (find (\<lambda>a. is_free (page_at fm a)) [b * PAGES_PER_BLOCK + p..<NUM_PAGES])"
proof (induction fm b p rule: find_free_page.induct)
  case (1 fm b p)
  show ?case
  proof (cases "b < TOTAL_BLOCKS")
    case False
    then have "NUM_PAGES \<le> b * PAGES_PER_BLOCK + p"
      by (simp add: NUM_PAGES_def trans_le_add1)
    with False show ?thesis by (simp add: find_free_page.simps)
  next
    case b: True
    show ?thesis
    proof (cases "p < PAGES_PER_BLOCK")
      case p: True
      let ?a = "b * PAGES_PER_BLOCK + p"
      have a: "?a < NUM_PAGES" using b p by (rule addr_join_less_NUM_PAGES)
      then have ups: "[?a..<NUM_PAGES] = ?a # [Suc ?a..<NUM_PAGES]"
        by (simp add: upt_conv_Cons)
      have pg: "page_at fm ?a = pages (fm ! b) ! p" using p by (rule page_at_join)
      show ?thesis
      proof (cases "is_free (pages (fm ! b) ! p)")
        case True
        with b p ups pg show ?thesis
          by (simp add: find_free_page.simps split_addr_def)
      next
        case False
        with b p "1.IH"(1) have "find_free_page fm b (Suc p) =
            map_option split_addr
              (find (\<lambda>a. is_free (page_at fm a)) [Suc ?a..<NUM_PAGES])"
          by simp
        with False b p ups pg show ?thesis
          by (simp add: find_free_page.simps [of fm b p])
      qed
    next
      case p: False
      with "1.prems" have pP: "p = PAGES_PER_BLOCK" by simp
      have step: "find_free_page fm b p = find_free_page fm (Suc b) 0"
        using b p by (simp add: find_free_page.simps [of fm b p])
      have "b * PAGES_PER_BLOCK + p = Suc b * PAGES_PER_BLOCK + 0"
        using pP by simp
      with step b p "1.IH"(2) show ?thesis by (simp add: add.commute)
    qed
  qed
qed

text \<open>C8: the nested scan of \<open>write_data\<close> started at block 0, page 0 computes first
  fit over the flat physical addresses, split into (block, page).\<close>

theorem find_free_page_first_free:
  "find_free_page fm 0 0 = map_option split_addr (first_free fm)"
  using find_free_page_find [of 0 fm 0] by (simp add: first_free_def)

section \<open>What first fit returns\<close>

lemma first_free_Some:
  assumes "first_free fm = Some a"
  shows "a < NUM_PAGES" and "is_free (page_at fm a)"
    and "\<And>a'. a' < a \<Longrightarrow> \<not> is_free (page_at fm a')"
  using assms by (auto simp: first_free_def find_Some_iff)

lemma first_free_None:
  "first_free fm = None \<longleftrightarrow> (\<forall>a < NUM_PAGES. \<not> is_free (page_at fm a))"
  by (auto simp: first_free_def find_None_iff)

lemma first_free_least:
  assumes "a < NUM_PAGES" and "is_free (page_at fm a)"
  shows "\<exists>a0. first_free fm = Some a0 \<and> a0 \<le> a"
proof (cases "first_free fm")
  case None
  with assms show ?thesis by (simp add: first_free_None)
next
  case (Some a0)
  then have "\<And>a'. a' < a0 \<Longrightarrow> \<not> is_free (page_at fm a')" by (rule first_free_Some)
  with assms(2) have "a0 \<le> a" using not_le by blast
  with Some show ?thesis by simp
qed

lemma split_addr_bounds:
  "a < NUM_PAGES \<Longrightarrow> fst (split_addr a) < TOTAL_BLOCKS \<and> snd (split_addr a) < PAGES_PER_BLOCK"
  by (simp add: split_addr_def)

lemma split_addr_join:
  "split_addr a = (b, p) \<Longrightarrow> b * PAGES_PER_BLOCK + p = a"
  by (auto simp: split_addr_def)

text \<open>C16: when the scan stops with a page, the page is inside the flash, at or after
  the block the scan started in, and its \<open>is_free\<close> flag is set.\<close>

theorem find_free_page_result:
  assumes "find_free_page fm b p = Some (b', p')"
  shows "b \<le> b' \<and> b' < TOTAL_BLOCKS \<and> p' < PAGES_PER_BLOCK \<and> is_free (pages (fm ! b') ! p')"
  using assms
proof (induction fm b p rule: find_free_page.induct)
  case (1 fm b p)
  show ?case
  proof (cases "b < TOTAL_BLOCKS \<and> p < PAGES_PER_BLOCK")
    case True
    show ?thesis
    proof (cases "is_free (pages (fm ! b) ! p)")
      case free: True
      with True "1.prems" show ?thesis by (simp add: find_free_page.simps [of fm b p])
    next
      case False
      with True "1.prems" have "find_free_page fm b (Suc p) = Some (b', p')"
        by (simp add: find_free_page.simps [of fm b p])
      with True False "1.IH"(1) show ?thesis by simp
    qed
  next
    case False
    show ?thesis
    proof (cases "b < TOTAL_BLOCKS")
      case True
      with False "1.prems" have "find_free_page fm (Suc b) 0 = Some (b', p')"
        by (simp add: find_free_page.simps [of fm b p])
      with True False "1.IH"(2) show ?thesis by simp
    next
      case b: False
      with "1.prems" show ?thesis by (simp add: find_free_page.simps [of fm b p])
    qed
  qed
qed

theorem find_free_page_result_witness:
  "find_free_page new_flash 0 0 = Some (0, 0) \<and>
   0 \<le> (0::nat) \<and> (0::nat) < TOTAL_BLOCKS \<and> (0::nat) < PAGES_PER_BLOCK \<and>
   is_free (pages (new_flash ! 0) ! 0)"
proof -
  have run: "find_free_page new_flash 0 0 = Some (0, 0)" by code_simp
  show ?thesis using run find_free_page_result [OF run] by simp
qed

end
