(* ===== verification/FTL.thy ===== *)
theory FTL
  imports Allocation
begin

text \<open>
  The class \<open>FTL_Simulator\<close> of \<^verbatim>\<open>src/ftl.cpp\<close> (lines 25--89): its state is the
  flash array and the logical-to-physical table \<open>std::map<int, int> l2p_table\<close>; its
  methods \<open>write_data\<close>, \<open>invalidate_old_page\<close> and \<open>read_data\<close> become functions
  that take the state and return the new state and the lines the method prints on
  \<open>std::cout\<close>, as a list of \<open>msg\<close> values. An out-of-range \<open>std::vector\<close> index is
  undefined behaviour in C++; a method that may make one returns \<open>None\<close> there, so
  that every path of the source is a value of the model.
\<close>

section \<open>State and output\<close>

record FTL_Simulator =
  flash_memory :: "Block list"
  l2p_table :: "cint \<rightharpoonup> cint"

text \<open>The constructor \<open>FTL_Simulator() : flash_memory(TOTAL_BLOCKS) {}\<close> (line 32),
  with an empty table.\<close>

definition new_FTL :: FTL_Simulator where
  "new_FTL = \<lparr>flash_memory = new_flash, l2p_table = Map.empty\<rparr>"

text \<open>One constructor per line the program prints (lines 59, 64, 72, 82, 86, and the
  banners of \<open>main\<close>).\<close>

datatype msg =
    Written cint cint
  | Disk_Full
  | Marked_Invalid cint
  | Read_Value cint cint
  | Not_Found cint
  | Banner string

section \<open>Methods\<close>

text \<open>\<open>invalidate_old_page\<close> (lines 67--73): split the address with C++ division and
  clear the page's \<open>is_valid\<close> flag.\<close>

definition invalidate_old_page ::
  "cint \<Rightarrow> FTL_Simulator \<Rightarrow> (FTL_Simulator \<times> msg list) option" where
  "invalidate_old_page phys_addr s =
     (let b = block_of phys_addr; p = page_of phys_addr in
      if page_ok (flash_memory s) b p
      then Some (s\<lparr>flash_memory :=
                    map_page (\<lambda>pg. pg\<lparr>is_valid := False\<rparr>) b p (flash_memory s)\<rparr>,
                 [Marked_Invalid phys_addr])
      else None)"

text \<open>The three assignments to the page found free (lines 51--53).\<close>

definition program_page :: "cint \<Rightarrow> PhysicalPage \<Rightarrow> PhysicalPage" where
  "program_page d pg = pg\<lparr>data := d, is_valid := True, is_free := False\<rparr>"

text \<open>Step 2 of \<open>write_data\<close> (lines 43--64): the linear search, and on success the
  write, the table update \<open>l2p_table[lba] = physical_addr\<close> and the message; when no page
  is free, only the message.\<close>

definition allocate_and_write ::
  "cint \<Rightarrow> cint \<Rightarrow> FTL_Simulator \<Rightarrow> FTL_Simulator \<times> msg list" where
  "allocate_and_write lba d s =
     (case find_free_page (flash_memory s) 0 0 of
        Some (b, p) \<Rightarrow>
          (let physical_addr = encode_addr b p in
           (s\<lparr>flash_memory := map_page (program_page d) (int b) (int p) (flash_memory s),
              l2p_table := (l2p_table s)(lba \<mapsto> physical_addr)\<rparr>,
            [Written lba physical_addr]))
      | None \<Rightarrow> (s, [Disk_Full]))"

text \<open>\<open>write_data\<close> (lines 35--65): step 1 invalidates the page the table holds for
  \<open>lba\<close>, before any free page has been found; step 2 is \<open>allocate_and_write\<close>.\<close>

definition write_data ::
  "cint \<Rightarrow> cint \<Rightarrow> FTL_Simulator \<Rightarrow> (FTL_Simulator \<times> msg list) option" where
  "write_data lba d s =
     (case l2p_table s lba of
        Some old \<Rightarrow>
          map_option (\<lambda>(s1, out1). let (s2, out2) = allocate_and_write lba d s1
                                   in (s2, out1 @ out2))
            (invalidate_old_page old s)
      | None \<Rightarrow> Some (allocate_and_write lba d s))"

text \<open>\<open>read_data\<close> (lines 75--88) prints the data of the mapped page, or that the
  address is unmapped; it changes no state (\<open>l2p_table[lba]\<close> is only evaluated after
  \<open>count\<close> has found the key, so it inserts nothing).\<close>

definition read_data :: "cint \<Rightarrow> FTL_Simulator \<Rightarrow> msg list option" where
  "read_data lba s =
     (case l2p_table s lba of
        Some phys_addr \<Rightarrow>
          (let b = block_of phys_addr; p = page_of phys_addr in
           if page_ok (flash_memory s) b p
           then Some [Read_Value lba (data (get_page (flash_memory s) b p))]
           else None)
      | None \<Rightarrow> Some [Not_Found lba])"

section \<open>Behaviour of each method, branch by branch\<close>

lemma invalidate_old_page_in_range:
  assumes "wf_flash (flash_memory s)" and "a < NUM_PAGES"
  shows "invalidate_old_page (int a) s =
           Some (s\<lparr>flash_memory := map_page (\<lambda>pg. pg\<lparr>is_valid := False\<rparr>)
                     (int (a div PAGES_PER_BLOCK)) (int (a mod PAGES_PER_BLOCK))
                     (flash_memory s)\<rparr>,
                 [Marked_Invalid (int a)])"
  using assms by (simp add: invalidate_old_page_def page_ok_int_iff Let_def)

lemma invalidate_old_page_out_of_range:
  "\<not> page_ok (flash_memory s) (block_of a) (page_of a) \<Longrightarrow> invalidate_old_page a s = None"
  by (simp add: invalidate_old_page_def)

lemma allocate_and_write_free:
  assumes "first_free (flash_memory s) = Some a"
  shows "allocate_and_write lba d s =
           (s\<lparr>flash_memory := map_page (program_page d)
                 (int (a div PAGES_PER_BLOCK)) (int (a mod PAGES_PER_BLOCK)) (flash_memory s),
              l2p_table := (l2p_table s)(lba \<mapsto> int a)\<rparr>,
            [Written lba (int a)])"
proof -
  have "find_free_page (flash_memory s) 0 0 = Some (a div PAGES_PER_BLOCK, a mod PAGES_PER_BLOCK)"
    using assms find_free_page_find [of 0 "flash_memory s" 0]
    by (simp add: first_free_def split_addr_def)
  moreover have "encode_addr (a div PAGES_PER_BLOCK) (a mod PAGES_PER_BLOCK) = int a"
    by (simp add: encode_addr_def)
  ultimately show ?thesis by (simp add: allocate_and_write_def Let_def)
qed

lemma allocate_and_write_full:
  "first_free (flash_memory s) = None \<Longrightarrow> allocate_and_write lba d s = (s, [Disk_Full])"
  using find_free_page_find [of 0 "flash_memory s" 0]
  by (simp add: allocate_and_write_def first_free_def)

lemma write_data_unmapped:
  "l2p_table s lba = None \<Longrightarrow> write_data lba d s = Some (allocate_and_write lba d s)"
  by (simp add: write_data_def)

lemma write_data_mapped:
  assumes "l2p_table s lba = Some old" and "invalidate_old_page old s = Some (s1, out1)"
  shows "write_data lba d s =
           Some (fst (allocate_and_write lba d s1), out1 @ snd (allocate_and_write lba d s1))"
  using assms by (simp add: write_data_def split: prod.splits)

lemma read_data_unmapped:
  "l2p_table s lba = None \<Longrightarrow> read_data lba s = Some [Not_Found lba]"
  by (simp add: read_data_def)

lemma read_data_mapped:
  assumes "wf_flash (flash_memory s)" and "l2p_table s lba = Some (int a)" and "a < NUM_PAGES"
  shows "read_data lba s = Some [Read_Value lba (data (page_at (flash_memory s) a))]"
  using assms by (simp add: read_data_def page_ok_int_iff get_page_page_at Let_def)

section \<open>Fields a method does not write\<close>

lemma allocate_and_write_erase_counts:
  "map erase_count (flash_memory (fst (allocate_and_write lba d s))) =
   map erase_count (flash_memory s)"
  by (simp add: allocate_and_write_def erase_count_map_page Let_def
      split: option.splits prod.splits)

lemma invalidate_old_page_table:
  "invalidate_old_page a s = Some (s1, out) \<Longrightarrow> l2p_table s1 = l2p_table s"
  by (auto simp: invalidate_old_page_def Let_def split: if_splits)

lemma invalidate_old_page_wf:
  "invalidate_old_page a s = Some (s1, out) \<Longrightarrow> wf_flash (flash_memory s) \<Longrightarrow>
   wf_flash (flash_memory s1)"
  by (auto simp: invalidate_old_page_def Let_def wf_flash_map_page split: if_splits)

lemma allocate_and_write_wf:
  "wf_flash (flash_memory s) \<Longrightarrow> wf_flash (flash_memory (fst (allocate_and_write lba d s)))"
  by (simp add: allocate_and_write_def wf_flash_map_page Let_def
      split: option.splits prod.splits)

lemma allocate_and_write_table_other:
  "l \<noteq> lba \<Longrightarrow> l2p_table (fst (allocate_and_write lba d s)) l = l2p_table s l"
  by (simp add: allocate_and_write_def Let_def split: option.splits prod.splits)

lemma write_data_table_other:
  assumes "write_data lba d s = Some (s', out)" and "l \<noteq> lba"
  shows "l2p_table s' l = l2p_table s l"
proof (cases "l2p_table s lba")
  case None
  with assms(1) have "s' = fst (allocate_and_write lba d s)"
    by (simp add: write_data_def)
  with assms(2) show ?thesis by (simp add: allocate_and_write_table_other)
next
  case (Some old)
  with assms(1) obtain s1 out1 where inv: "invalidate_old_page old s = Some (s1, out1)"
    by (cases "invalidate_old_page old s") (auto simp: write_data_def)
  with assms(1) write_data_mapped [OF Some inv] have "s' = fst (allocate_and_write lba d s1)"
    by simp
  with assms(2) invalidate_old_page_table [OF inv] show ?thesis
    by (simp add: allocate_and_write_table_other)
qed

section \<open>Undefined behaviour of \<open>invalidate_old_page\<close>\<close>

text \<open>C18: on a well-formed flash array \<open>invalidate_old_page\<close> indexes out of range
  (undefined behaviour in C++, \<open>None\<close> here) exactly for the addresses outside
  \<open>[0, NUM_PAGES)\<close>; for \<open>-1\<close> the C++ division gives block 0 and page \<open>-1\<close>.\<close>

theorem invalidate_old_page_undefined:
  assumes "wf_flash (flash_memory s)"
  shows "invalidate_old_page a s = None \<longleftrightarrow> a < 0 \<or> int NUM_PAGES \<le> a"
  using assms by (auto simp: invalidate_old_page_def Let_def page_ok_decode_iff)

theorem invalidate_old_page_undefined_witness:
  "wf_flash (flash_memory new_FTL) \<and> block_of (-1) = 0 \<and> page_of (-1) = -1 \<and>
   invalidate_old_page (-1) new_FTL = None \<and> invalidate_old_page 16 new_FTL = None \<and>
   invalidate_old_page 15 new_FTL \<noteq> None"
proof -
  have wf: "wf_flash (flash_memory new_FTL)" by (simp add: new_FTL_def wf_new_flash)
  have d: "block_of (-1) = 0 \<and> page_of (-1) = -1"
    by (simp add: block_of_def page_of_def PAGES_PER_BLOCK_def signed_divide_int_def
        signed_modulo_int_def)
  show ?thesis
    using invalidate_old_page_undefined [OF wf, of "-1"] invalidate_old_page_undefined [OF wf, of 16]
      invalidate_old_page_undefined [OF wf, of 15] wf d by (simp add: ftl_geometry)
qed

end
