(* ===== verification/FTL_Invariant.thy ===== *)
theory FTL_Invariant
  imports FTL
begin

text \<open>
  The invariant that every state the simulator of \<^verbatim>\<open>src/ftl.cpp\<close> reaches keeps,
  one conjunct per fact the code relies on, and the proof that \<open>write_data\<close> keeps
  it. \<open>read_data\<close> changes no state. The conjuncts: the flash array keeps its
  shape; no page is both free and valid; every address in the table is a page of the
  array that has been written (not free); no two logical addresses share a page;
  every valid page is the current page of some logical address; the free pages are
  exactly the pages from some address on (the first-fit scan fills the flash from the
  front and nothing frees a page again); no block has been erased; the table is
  finite. The invariant does not say that the page the table holds is valid: after an
  overwrite that finds the flash full it is stale (\<open>Spec2Isabelle\<close> proves this).
\<close>

section \<open>The invariant\<close>

definition no_torn_pages :: "Block list \<Rightarrow> bool" where
  "no_torn_pages fm \<longleftrightarrow> (\<forall>a < NUM_PAGES. state_of (page_at fm a) \<noteq> Torn)"

definition map_targets_used :: "FTL_Simulator \<Rightarrow> bool" where
  "map_targets_used s \<longleftrightarrow>
     (\<forall>lba a. l2p_table s lba = Some a \<longrightarrow>
        0 \<le> a \<and> a < int NUM_PAGES \<and> \<not> is_free (page_at (flash_memory s) (nat a)))"

definition valid_pages_mapped :: "FTL_Simulator \<Rightarrow> bool" where
  "valid_pages_mapped s \<longleftrightarrow>
     (\<forall>a < NUM_PAGES. is_valid (page_at (flash_memory s) a) \<longrightarrow> int a \<in> ran (l2p_table s))"

definition free_suffix :: "Block list \<Rightarrow> bool" where
  "free_suffix fm \<longleftrightarrow>
     (\<forall>a a'. a \<le> a' \<longrightarrow> a' < NUM_PAGES \<longrightarrow> is_free (page_at fm a) \<longrightarrow> is_free (page_at fm a'))"

definition never_erased :: "Block list \<Rightarrow> bool" where
  "never_erased fm \<longleftrightarrow> (\<forall>blk \<in> set fm. erase_count blk = 0)"

definition ftl_inv :: "FTL_Simulator \<Rightarrow> bool" where
  "ftl_inv s \<longleftrightarrow>
     wf_flash (flash_memory s) \<and> no_torn_pages (flash_memory s) \<and> map_targets_used s \<and>
     map_injective (l2p_table s) \<and> valid_pages_mapped s \<and> free_suffix (flash_memory s) \<and>
     never_erased (flash_memory s) \<and> finite (dom (l2p_table s))"

text \<open>The number of pages written so far (not free); a measure of this development.\<close>

definition used_pages :: "Block list \<Rightarrow> nat" where
  "used_pages fm = card {a. a < NUM_PAGES \<and> \<not> is_free (page_at fm a)}"

section \<open>Page-level facts\<close>

lemma state_of_not_Torn: "state_of pg \<noteq> Torn \<longleftrightarrow> \<not> (is_free pg \<and> is_valid pg)"
  by (simp add: state_of_def)

lemma never_erased_image: "never_erased fm \<longleftrightarrow> erase_count ` set fm \<subseteq> {0}"
  by (auto simp: never_erased_def)

lemma never_erased_iff_map:
  assumes "map erase_count fm' = map erase_count fm"
  shows "never_erased fm' \<longleftrightarrow> never_erased fm"
proof -
  have "erase_count ` set fm' = erase_count ` set fm"
    using arg_cong [OF assms, of set] by simp
  then show ?thesis by (simp only: never_erased_image)
qed

lemma mapped_addr:
  assumes "map_targets_used s" and "l2p_table s lba = Some a"
  obtains n where "a = int n" and "n < NUM_PAGES" and "\<not> is_free (page_at (flash_memory s) n)"
proof -
  from assms have "0 \<le> a" and "a < int NUM_PAGES"
    and "\<not> is_free (page_at (flash_memory s) (nat a))"
    by (auto simp: map_targets_used_def)
  then show ?thesis using that [of "nat a"] by simp
qed

lemma free_not_in_ran:
  assumes "map_targets_used s" and "is_free (page_at (flash_memory s) a)"
  shows "int a \<notin> ran (l2p_table s)"
proof
  assume "int a \<in> ran (l2p_table s)"
  then obtain lba where "l2p_table s lba = Some (int a)" by (auto simp: ran_def)
  with assms(1) have "\<not> is_free (page_at (flash_memory s) (nat (int a)))"
    unfolding map_targets_used_def by blast
  with assms(2) show False by simp
qed

lemma ftl_invD:
  assumes "ftl_inv s"
  shows "wf_flash (flash_memory s)" and "no_torn_pages (flash_memory s)"
    and "map_targets_used s" and "map_injective (l2p_table s)"
    and "valid_pages_mapped s" and "free_suffix (flash_memory s)"
    and "never_erased (flash_memory s)" and "finite (dom (l2p_table s))"
  using assms by (simp_all add: ftl_inv_def)

text \<open>Frame lemmas: conjuncts that only read the \<open>is_free\<close> flags and the table.\<close>

lemma map_targets_used_same_free:
  assumes "map_targets_used s" and "l2p_table s1 = l2p_table s"
    and "\<And>a. a < NUM_PAGES \<Longrightarrow>
           is_free (page_at (flash_memory s1) a) = is_free (page_at (flash_memory s) a)"
  shows "map_targets_used s1"
  using assms unfolding map_targets_used_def by (metis nat_less_iff)

lemma free_suffix_same_free:
  assumes "free_suffix fm"
    and "\<And>a. a < NUM_PAGES \<Longrightarrow> is_free (page_at fm1 a) = is_free (page_at fm a)"
  shows "free_suffix fm1"
  using assms unfolding free_suffix_def by (meson le_less_trans)

section \<open>Invalidating a page\<close>

text \<open>Clearing \<open>is_valid\<close> of one page keeps every \<open>is_free\<close> flag and every datum.\<close>

lemma invalidate_old_page_flags:
  assumes "wf_flash (flash_memory s)" and "a < NUM_PAGES"
    and "invalidate_old_page (int a) s = Some (s1, out)" and "a' < NUM_PAGES"
  shows "page_at (flash_memory s1) a' =
           (if a' = a then (page_at (flash_memory s) a')\<lparr>is_valid := False\<rparr>
            else page_at (flash_memory s) a')"
  using assms by (auto simp: invalidate_old_page_in_range page_at_map_page_addr)

lemma invalidate_old_page_inv:
  assumes inv: "ftl_inv s" and a: "a < NUM_PAGES"
    and inval: "invalidate_old_page (int a) s = Some (s1, out)"
  shows "ftl_inv s1"
proof -
  let ?fm = "flash_memory s" and ?fm1 = "flash_memory s1"
  note I = ftl_invD [OF inv]
  have tbl: "l2p_table s1 = l2p_table s" using inval by (rule invalidate_old_page_table)
  have free: "\<And>a'. a' < NUM_PAGES \<Longrightarrow> is_free (page_at ?fm1 a') = is_free (page_at ?fm a')"
    using invalidate_old_page_flags [OF I(1) a inval] by simp
  have valid: "\<And>a'. a' < NUM_PAGES \<Longrightarrow> is_valid (page_at ?fm1 a') \<Longrightarrow> is_valid (page_at ?fm a')"
    using invalidate_old_page_flags [OF I(1) a inval] by (simp split: if_splits)
  have erase: "map erase_count ?fm1 = map erase_count ?fm"
    using inval by (auto simp: invalidate_old_page_def Let_def erase_count_map_page
        split: if_splits)
  have "wf_flash ?fm1" using inval I(1) by (rule invalidate_old_page_wf)
  moreover have "no_torn_pages ?fm1"
    using I(2) free valid unfolding no_torn_pages_def state_of_not_Torn by blast
  moreover have "map_targets_used s1"
    using I(3) tbl free by (rule map_targets_used_same_free)
  moreover have "valid_pages_mapped s1"
    using I(5) valid unfolding valid_pages_mapped_def tbl by blast
  moreover have "free_suffix ?fm1"
    using I(6) free by (rule free_suffix_same_free)
  moreover have "never_erased ?fm1"
    using I(7) never_erased_iff_map [OF erase] by simp
  ultimately show ?thesis
    using I(4,8) tbl by (simp add: ftl_inv_def)
qed

section \<open>Programming the first free page\<close>

lemma allocate_and_write_flags:
  assumes "wf_flash (flash_memory s)" and "first_free (flash_memory s) = Some a0"
    and "a' < NUM_PAGES"
  shows "page_at (flash_memory (fst (allocate_and_write lba d s))) a' =
           (if a' = a0 then program_page d (page_at (flash_memory s) a0)
            else page_at (flash_memory s) a')"
  using assms first_free_Some(1) [OF assms(2)]
  by (simp add: allocate_and_write_free page_at_map_page_addr)

lemma allocate_and_write_table:
  "first_free (flash_memory s) = Some a0 \<Longrightarrow>
   l2p_table (fst (allocate_and_write lba d s)) = (l2p_table s)(lba \<mapsto> int a0)"
  by (simp add: allocate_and_write_free)

text \<open>
  The write keeps the invariant provided the page the table holds for \<open>lba\<close>, if
  any, is no longer valid: \<open>write_data\<close> has just invalidated it. Without that
  premise the old page would stay valid and unmapped.
\<close>

lemma allocate_and_write_inv:
  assumes inv: "ftl_inv s"
    and stale: "\<And>a. l2p_table s lba = Some a \<Longrightarrow> \<not> is_valid (page_at (flash_memory s) (nat a))"
  shows "ftl_inv (fst (allocate_and_write lba d s))"
proof (cases "first_free (flash_memory s)")
  case None
  with inv show ?thesis by (simp add: allocate_and_write_full)
next
  case (Some a0)
  let ?s2 = "fst (allocate_and_write lba d s)"
  let ?fm = "flash_memory s" and ?fm2 = "flash_memory ?s2"
  note I = ftl_invD [OF inv]
  note ff = first_free_Some [OF Some]
  have tbl: "l2p_table ?s2 = (l2p_table s)(lba \<mapsto> int a0)"
    using Some by (rule allocate_and_write_table)
  have free2: "\<And>a'. a' < NUM_PAGES \<Longrightarrow>
      is_free (page_at ?fm2 a') \<longleftrightarrow> a' \<noteq> a0 \<and> is_free (page_at ?fm a')"
    using allocate_and_write_flags [OF I(1) Some] by (simp add: program_page_def)
  have valid2: "\<And>a'. a' < NUM_PAGES \<Longrightarrow>
      is_valid (page_at ?fm2 a') \<longleftrightarrow> a' = a0 \<or> is_valid (page_at ?fm a')"
    using allocate_and_write_flags [OF I(1) Some] by (simp add: program_page_def)
  have notran: "int a0 \<notin> ran (l2p_table s)"
    using I(3) ff(2) by (rule free_not_in_ran)
  have "wf_flash ?fm2" using I(1) by (rule allocate_and_write_wf)
  moreover have "no_torn_pages ?fm2"
    using I(2) free2 valid2 unfolding no_torn_pages_def state_of_not_Torn by blast
  moreover have "map_targets_used ?s2"
    unfolding map_targets_used_def tbl
  proof (intro allI impI)
    fix l a
    assume la: "((l2p_table s)(lba \<mapsto> int a0)) l = Some a"
    show "0 \<le> a \<and> a < int NUM_PAGES \<and> \<not> is_free (page_at ?fm2 (nat a))"
    proof (cases "l = lba")
      case True
      with la ff(1) free2 [OF ff(1)] show ?thesis by auto
    next
      case False
      with la have "l2p_table s l = Some a" by simp
      with I(3) obtain n where "a = int n" and "n < NUM_PAGES"
        and "\<not> is_free (page_at ?fm n)" by (rule mapped_addr)
      with free2 show ?thesis by simp
    qed
  qed
  moreover have "map_injective (l2p_table ?s2)"
    using I(4) notran by (simp add: tbl map_injective_upd)
  moreover have "valid_pages_mapped ?s2"
    unfolding valid_pages_mapped_def tbl
  proof (intro allI impI)
    fix a'
    assume a': "a' < NUM_PAGES" and v: "is_valid (page_at ?fm2 a')"
    show "int a' \<in> ran ((l2p_table s)(lba \<mapsto> int a0))"
    proof (cases "a' = a0")
      case True
      then show ?thesis by (auto simp: ran_def)
    next
      case False
      with valid2 [OF a'] v have "is_valid (page_at ?fm a')" by simp
      with I(5) a' obtain l where l: "l2p_table s l = Some (int a')"
        unfolding valid_pages_mapped_def ran_def by blast
      have "l \<noteq> lba"
      proof
        assume "l = lba"
        with stale l have "\<not> is_valid (page_at ?fm (nat (int a')))" by simp
        with \<open>is_valid (page_at ?fm a')\<close> show False by simp
      qed
      with l show ?thesis by (auto simp: ran_def)
    qed
  qed
  moreover have "free_suffix ?fm2"
    unfolding free_suffix_def
  proof (intro allI impI)
    fix a a'
    assume le: "a \<le> a'" and a': "a' < NUM_PAGES" and fa: "is_free (page_at ?fm2 a)"
    from le a' have a: "a < NUM_PAGES" by simp
    from free2 [OF a] fa have "a \<noteq> a0" and fa1: "is_free (page_at ?fm a)" by simp_all
    moreover from ff(3) fa1 have "a0 \<le> a" using not_le by blast
    ultimately have "a0 < a" by simp
    from I(6) le a' fa1 have "is_free (page_at ?fm a')"
      unfolding free_suffix_def by blast
    with free2 [OF a'] \<open>a0 < a\<close> le show "is_free (page_at ?fm2 a')" by simp
  qed
  moreover have "never_erased ?fm2"
    using I(7) never_erased_iff_map [OF allocate_and_write_erase_counts] by simp
  moreover have "finite (dom (l2p_table ?s2))"
    using I(8) by (simp add: tbl)
  ultimately show ?thesis by (simp add: ftl_inv_def)
qed

section \<open>First fit on a flash whose free pages are a suffix\<close>

text \<open>When the free pages are a suffix of the flash, the first free page is the
  number of pages written so far, and there is none when all are written.\<close>

lemma first_free_used_pages:
  assumes fs: "free_suffix fm"
  shows "first_free fm = (if used_pages fm < NUM_PAGES then Some (used_pages fm) else None)"
proof (cases "first_free fm")
  case None
  then have "{a. a < NUM_PAGES \<and> \<not> is_free (page_at fm a)} = {..<NUM_PAGES}"
    by (auto simp: first_free_None)
  with None show ?thesis by (simp add: used_pages_def)
next
  case (Some a0)
  note ff = first_free_Some [OF Some]
  have "{a. a < NUM_PAGES \<and> \<not> is_free (page_at fm a)} = {..<a0}"
  proof (intro set_eqI iffI)
    fix a
    assume "a \<in> {a. a < NUM_PAGES \<and> \<not> is_free (page_at fm a)}"
    then have a: "a < NUM_PAGES" and nf: "\<not> is_free (page_at fm a)" by simp_all
    show "a \<in> {..<a0}"
    proof (rule ccontr)
      assume "a \<notin> {..<a0}"
      then have "a0 \<le> a" by simp
      with fs a ff(2) have "is_free (page_at fm a)" unfolding free_suffix_def by blast
      with nf show False by simp
    qed
  next
    fix a
    assume "a \<in> {..<a0}"
    with ff(1,3) show "a \<in> {a. a < NUM_PAGES \<and> \<not> is_free (page_at fm a)}" by simp
  qed
  then have "used_pages fm = a0" by (simp add: used_pages_def)
  with Some ff(1) show ?thesis by simp
qed

end
