(* ===== verification/FTL_Refinement.thy ===== *)
theory FTL_Refinement
  imports FTL_Invariant
begin

text \<open>
  What \<open>write_data\<close> and \<open>read_data\<close> of \<^verbatim>\<open>src/ftl.cpp\<close> do on a state that
  satisfies the invariant, against an abstract specification: the logical disk, a
  partial map from logical block address to the data last stored there
  (\<open>disk_of\<close>). A write refines the map update when the flash has a free page and
  leaves the logical disk unchanged when it has none; a read refines the map lookup.
  The theory also proves that neither method reaches undefined behaviour (an index
  out of range) on such a state, and what each prints.
\<close>

section \<open>The abstract disk\<close>

definition disk_of :: "FTL_Simulator \<Rightarrow> cint \<rightharpoonup> cint" where
  "disk_of s lba = map_option (\<lambda>a. data (page_at (flash_memory s) (nat a))) (l2p_table s lba)"

section \<open>\<open>write_data\<close> on a state that satisfies the invariant\<close>

lemma first_free_same_free:
  assumes "\<And>a. a < NUM_PAGES \<Longrightarrow> is_free (page_at fm1 a) = is_free (page_at fm a)"
  shows "first_free fm1 = first_free fm"
  using assms unfolding first_free_def by (auto intro!: find_cong)

text \<open>
  The two paths of \<open>write_data\<close>: an unmapped address goes straight to the search;
  a mapped one first invalidates its page, which is in range, and the state after
  the invalidation satisfies the invariant and holds a stale page for \<open>lba\<close>.
\<close>

lemma write_data_cases:
  assumes inv: "ftl_inv s"
  obtains (unmapped) "l2p_table s lba = None"
      and "write_data lba d s = Some (allocate_and_write lba d s)"
    | (mapped) n s1 where "l2p_table s lba = Some (int n)" and "n < NUM_PAGES"
      and "invalidate_old_page (int n) s = Some (s1, [Marked_Invalid (int n)])"
      and "ftl_inv s1" and "l2p_table s1 = l2p_table s"
      and "\<And>a'. a' < NUM_PAGES \<Longrightarrow> page_at (flash_memory s1) a' =
             (if a' = n then (page_at (flash_memory s) a')\<lparr>is_valid := False\<rparr>
              else page_at (flash_memory s) a')"
      and "write_data lba d s =
             Some (fst (allocate_and_write lba d s1),
                   Marked_Invalid (int n) # snd (allocate_and_write lba d s1))"
proof (cases "l2p_table s lba")
  case None
  then show ?thesis using unmapped write_data_unmapped by blast
next
  case (Some a)
  note I = ftl_invD [OF inv]
  from I(3) Some obtain n where a: "a = int n" and n: "n < NUM_PAGES"
    by (rule mapped_addr)
  define s1 where "s1 = s\<lparr>flash_memory := map_page (\<lambda>pg. pg\<lparr>is_valid := False\<rparr>)
      (int (n div PAGES_PER_BLOCK)) (int (n mod PAGES_PER_BLOCK)) (flash_memory s)\<rparr>"
  have inval: "invalidate_old_page (int n) s = Some (s1, [Marked_Invalid (int n)])"
    using I(1) n by (simp add: invalidate_old_page_in_range s1_def)
  show ?thesis
  proof (rule mapped [OF _ n inval])
    show "l2p_table s lba = Some (int n)" using Some a by simp
    show "ftl_inv s1" using inv n inval by (rule invalidate_old_page_inv)
    show "l2p_table s1 = l2p_table s" using inval by (rule invalidate_old_page_table)
    show "\<And>a'. a' < NUM_PAGES \<Longrightarrow> page_at (flash_memory s1) a' =
             (if a' = n then (page_at (flash_memory s) a')\<lparr>is_valid := False\<rparr>
              else page_at (flash_memory s) a')"
      using invalidate_old_page_flags [OF I(1) n inval] by blast
    show "write_data lba d s =
            Some (fst (allocate_and_write lba d s1),
                  Marked_Invalid (int n) # snd (allocate_and_write lba d s1))"
      using write_data_mapped [OF _ inval] Some a by simp
  qed
qed

lemma write_data_Some_inv:
  assumes inv: "ftl_inv s"
  shows "\<exists>s' out. write_data lba d s = Some (s', out) \<and> ftl_inv s'"
  using inv
proof (cases rule: write_data_cases [of s lba d])
  case unmapped
  with allocate_and_write_inv [OF inv, of lba d] show ?thesis
    by (cases "allocate_and_write lba d s") simp
next
  case (mapped n s1)
  have "\<And>a. l2p_table s1 lba = Some a \<Longrightarrow> \<not> is_valid (page_at (flash_memory s1) (nat a))"
    using mapped by simp
  with allocate_and_write_inv [OF mapped(4)] mapped(7) show ?thesis by simp
qed

lemma allocate_and_write_output:
  "snd (allocate_and_write lba d s) =
     [case first_free (flash_memory s) of None \<Rightarrow> Disk_Full | Some a \<Rightarrow> Written lba (int a)]"
  by (cases "first_free (flash_memory s)")
    (simp_all add: allocate_and_write_full allocate_and_write_free)

section \<open>The abstract disk under the two halves of a write\<close>

lemma disk_of_same_data:
  assumes "map_targets_used s" and "l2p_table s1 = l2p_table s"
    and "\<And>a. a < NUM_PAGES \<Longrightarrow> data (page_at (flash_memory s1) a) = data (page_at (flash_memory s) a)"
  shows "disk_of s1 = disk_of s"
proof
  fix l
  show "disk_of s1 l = disk_of s l"
  proof (cases "l2p_table s l")
    case None
    with assms(2) show ?thesis by (simp add: disk_of_def)
  next
    case (Some a)
    with assms(1) obtain n where "a = int n" and "n < NUM_PAGES" by (rule mapped_addr)
    with Some assms(2,3) show ?thesis by (simp add: disk_of_def)
  qed
qed

lemma allocate_and_write_disk:
  assumes inv: "ftl_inv s"
  shows "disk_of (fst (allocate_and_write lba d s)) =
           (if first_free (flash_memory s) = None then disk_of s else (disk_of s)(lba \<mapsto> d))"
proof (cases "first_free (flash_memory s)")
  case None
  then show ?thesis by (simp add: allocate_and_write_full)
next
  case (Some a0)
  let ?s2 = "fst (allocate_and_write lba d s)"
  note I = ftl_invD [OF inv]
  note ff = first_free_Some [OF Some]
  have tbl: "l2p_table ?s2 = (l2p_table s)(lba \<mapsto> int a0)"
    using Some by (rule allocate_and_write_table)
  note pg = allocate_and_write_flags [OF I(1) Some]
  have "disk_of ?s2 l = ((disk_of s)(lba \<mapsto> d)) l" for l
  proof (cases "l = lba")
    case True
    with tbl pg [OF ff(1)] show ?thesis by (simp add: disk_of_def program_page_def)
  next
    case False
    show ?thesis
    proof (cases "l2p_table s l")
      case None
      with False tbl show ?thesis by (simp add: disk_of_def)
    next
      case (Some a)
      with I(3) obtain n where n: "a = int n" "n < NUM_PAGES"
        and used: "\<not> is_free (page_at (flash_memory s) n)" by (rule mapped_addr)
      from used ff(2) have "n \<noteq> a0" by auto
      with Some False tbl n pg [OF n(2)] show ?thesis by (simp add: disk_of_def)
    qed
  qed
  with Some show ?thesis by auto
qed

section \<open>Refinement and behaviour of \<open>write_data\<close>\<close>

lemma write_data_refines_disk:
  assumes inv: "ftl_inv s" and w: "write_data lba d s = Some (s', out)"
  shows "disk_of s' =
           (if first_free (flash_memory s) = None then disk_of s else (disk_of s)(lba \<mapsto> d))"
  using inv
proof (cases rule: write_data_cases [of s lba d])
  case unmapped
  with w allocate_and_write_disk [OF inv, of lba d] show ?thesis by auto
next
  case (mapped n s1)
  have free1: "\<And>a. a < NUM_PAGES \<Longrightarrow>
      is_free (page_at (flash_memory s1) a) = is_free (page_at (flash_memory s) a)"
    using mapped(6) by simp
  have "first_free (flash_memory s1) = first_free (flash_memory s)"
    using free1 by (rule first_free_same_free)
  moreover have "disk_of s1 = disk_of s"
    using ftl_invD(3) [OF inv] mapped(5)
  proof (rule disk_of_same_data)
    show "data (page_at (flash_memory s1) a) = data (page_at (flash_memory s) a)"
      if "a < NUM_PAGES" for a
      using mapped(6) [OF that] by simp
  qed
  moreover have "s' = fst (allocate_and_write lba d s1)"
    using w mapped(7) by simp
  ultimately show ?thesis using allocate_and_write_disk [OF mapped(4), of lba d] by simp
qed

section \<open>Flags and messages of a whole \<open>write_data\<close>\<close>

lemma write_data_free_flags:
  assumes inv: "ftl_inv s" and w: "write_data lba d s = Some (s', out)"
    and a: "a < NUM_PAGES"
  shows "is_free (page_at (flash_memory s') a) \<longleftrightarrow>
           is_free (page_at (flash_memory s) a) \<and> first_free (flash_memory s) \<noteq> Some a"
proof -
  have step: "is_free (page_at (flash_memory (fst (allocate_and_write lba d t))) a) \<longleftrightarrow>
      is_free (page_at (flash_memory t) a) \<and> first_free (flash_memory t) \<noteq> Some a"
    if "wf_flash (flash_memory t)" for t
  proof (cases "first_free (flash_memory t)")
    case None
    then show ?thesis by (simp add: allocate_and_write_full)
  next
    case (Some a0)
    with allocate_and_write_flags [OF that Some a] show ?thesis
      by (simp add: program_page_def)
  qed
  show ?thesis
    using inv
  proof (cases rule: write_data_cases [of s lba d])
    case unmapped
    with w step [OF ftl_invD(1) [OF inv]] show ?thesis by simp
  next
    case (mapped n s1)
    have free1: "\<And>a. a < NUM_PAGES \<Longrightarrow>
        is_free (page_at (flash_memory s1) a) = is_free (page_at (flash_memory s) a)"
      using mapped(6) by simp
    then have "first_free (flash_memory s1) = first_free (flash_memory s)"
      by (rule first_free_same_free)
    with w mapped(7) step [OF ftl_invD(1) [OF mapped(4)]] free1 [OF a] show ?thesis
      by simp
  qed
qed

lemma write_data_messages:
  assumes inv: "ftl_inv s" and w: "write_data lba d s = Some (s', out)"
  shows "out = (case l2p_table s lba of None \<Rightarrow> [] | Some a \<Rightarrow> [Marked_Invalid a]) @
               [case first_free (flash_memory s) of
                  None \<Rightarrow> Disk_Full | Some a \<Rightarrow> Written lba (int a)]"
  using inv
proof (cases rule: write_data_cases [of s lba d])
  case unmapped
  with w have "out = snd (allocate_and_write lba d s)" by simp
  with unmapped show ?thesis by (simp add: allocate_and_write_output)
next
  case (mapped n s1)
  have "first_free (flash_memory s1) = first_free (flash_memory s)"
    using mapped(6) by (intro first_free_same_free) simp
  with w mapped(1,7) show ?thesis by (simp add: allocate_and_write_output)
qed

section \<open>Behaviour of \<open>read_data\<close>\<close>

lemma read_data_disk:
  assumes inv: "ftl_inv s"
  shows "read_data lba s =
           Some [case disk_of s lba of None \<Rightarrow> Not_Found lba | Some v \<Rightarrow> Read_Value lba v]"
proof (cases "l2p_table s lba")
  case None
  then show ?thesis by (simp add: read_data_unmapped disk_of_def)
next
  case (Some a)
  with ftl_invD(3) [OF inv] obtain n where "a = int n" and "n < NUM_PAGES"
    by (rule mapped_addr)
  with Some ftl_invD(1) [OF inv] show ?thesis by (simp add: read_data_mapped disk_of_def)
qed

lemma read_data_defined: "ftl_inv s \<Longrightarrow> read_data lba s \<noteq> None"
  by (simp add: read_data_disk)

section \<open>Pages used by a write\<close>

lemma write_data_used_pages:
  assumes inv: "ftl_inv s" and w: "write_data lba d s = Some (s', out)"
  shows "used_pages (flash_memory s') =
           (if first_free (flash_memory s) = None then used_pages (flash_memory s)
            else Suc (used_pages (flash_memory s)))"
proof -
  let ?U = "\<lambda>fm. {a. a < NUM_PAGES \<and> \<not> is_free (page_at fm a)}"
  have eq: "?U (flash_memory s') =
      ?U (flash_memory s) \<union> {a. a < NUM_PAGES \<and> first_free (flash_memory s) = Some a}"
    using write_data_free_flags [OF inv w] by auto
  show ?thesis
  proof (cases "first_free (flash_memory s)")
    case None
    with eq show ?thesis by (simp add: used_pages_def)
  next
    case (Some a0)
    note ff = first_free_Some [OF Some]
    have "?U (flash_memory s') = insert a0 (?U (flash_memory s))"
      using eq Some ff(1) by auto
    moreover have "a0 \<notin> ?U (flash_memory s)" using ff(2) by simp
    ultimately show ?thesis using Some by (simp add: used_pages_def)
  qed
qed

end
