(* ===== verification/FTL_System.thy ===== *)
theory FTL_System
  imports FTL_Refinement
begin

text \<open>
  The program of \<^verbatim>\<open>src/ftl.cpp\<close> as a whole: the calls \<open>main\<close> makes on one
  \<open>FTL_Simulator\<close> (lines 91--107), a run of such calls from the constructed state, and
  the states a run of writes reaches (reads change no state). Every reachable state
  satisfies \<open>FTL_Invariant.ftl_inv\<close>; the theorems of \<open>Spec2Isabelle\<close> are stated
  over reachable states and rest on that fact.
\<close>

section \<open>Calls and runs\<close>

text \<open>One statement of \<open>main\<close>: a banner printed with \<open>std::cout\<close>, or a method call.\<close>

datatype call = Print string | Write_Data cint cint | Read_Data cint

definition exec_call :: "call \<Rightarrow> FTL_Simulator \<Rightarrow> (FTL_Simulator \<times> msg list) option" where
  "exec_call c s =
     (case c of
        Print str \<Rightarrow> Some (s, [Banner str])
      | Write_Data lba d \<Rightarrow> write_data lba d s
      | Read_Data lba \<Rightarrow> map_option (\<lambda>out. (s, out)) (read_data lba s))"

fun run_calls :: "call list \<Rightarrow> FTL_Simulator \<Rightarrow> (FTL_Simulator \<times> msg list) option" where
  "run_calls [] s = Some (s, [])"
| "run_calls (c # cs) s =
     (case exec_call c s of
        None \<Rightarrow> None
      | Some (s1, out1) \<Rightarrow> map_option (\<lambda>(s2, out2). (s2, out1 @ out2)) (run_calls cs s1))"

text \<open>The body of \<open>main\<close> (lines 95--104); the leading newlines of the second and third
  banner are left out of the banner text.\<close>

definition main_calls :: "call list" where
  "main_calls =
     [Print ''--- Step 1: Writing Data ---'',
      Write_Data 10 500, Write_Data 20 700,
      Print ''--- Step 2: Overwriting LBA 10 (Demonstrating Out-of-Place Update) ---'',
      Write_Data 10 501,
      Print ''--- Step 3: Reading Data ---'',
      Read_Data 10, Read_Data 20]"

definition main :: "msg list option" where
  "main = map_option snd (run_calls main_calls new_FTL)"

section \<open>Reachable states\<close>

inductive reachable :: "FTL_Simulator \<Rightarrow> bool" where
  init: "reachable new_FTL"
| write_step: "reachable s \<Longrightarrow> write_data lba d s = Some (s', out) \<Longrightarrow> reachable s'"


section \<open>Every reachable state satisfies the invariant\<close>

lemma ftl_inv_new_FTL: "ftl_inv new_FTL"
proof -
  have pg: "\<And>a. a < NUM_PAGES \<Longrightarrow> page_at new_flash a = default_page"
    by (rule page_at_new_flash)
  have "no_torn_pages new_flash"
    using pg by (simp add: no_torn_pages_def state_of_def default_page_def)
  moreover have "valid_pages_mapped new_FTL"
    using pg by (simp add: valid_pages_mapped_def new_FTL_def default_page_def)
  moreover have "free_suffix new_flash"
    using pg by (simp add: free_suffix_def default_page_def)
  moreover have "never_erased new_flash"
    by (simp add: never_erased_def new_flash_def new_block_def)
  ultimately show ?thesis
    using wf_new_flash
    by (simp add: ftl_inv_def new_FTL_def map_targets_used_def)
qed

lemma write_data_inv:
  "ftl_inv s \<Longrightarrow> write_data lba d s = Some (s', out) \<Longrightarrow> ftl_inv s'"
  using write_data_Some_inv [of s lba d] by auto

lemma reachable_ftl_inv: "reachable s \<Longrightarrow> ftl_inv s"
proof (induction rule: reachable.induct)
  case init
  show ?case by (rule ftl_inv_new_FTL)
next
  case (write_step s lba d s' out)
  then show ?case by (blast intro: write_data_inv)
qed

lemma reachable_write_defined:
  "reachable s \<Longrightarrow> \<exists>s' out. write_data lba d s = Some (s', out) \<and> reachable s'"
  using write_data_Some_inv [OF reachable_ftl_inv] reachable.write_step by blast

lemma exec_call_reachable:
  assumes "reachable s"
  shows "\<exists>s' out. exec_call c s = Some (s', out) \<and> reachable s'"
proof (cases c)
  case (Print str)
  with assms show ?thesis by (simp add: exec_call_def)
next
  case (Write_Data lba d)
  with reachable_write_defined [OF assms] show ?thesis by (simp add: exec_call_def)
next
  case (Read_Data lba)
  have "read_data lba s \<noteq> None"
    using read_data_defined [OF reachable_ftl_inv [OF assms]] .
  with assms Read_Data show ?thesis by (auto simp: exec_call_def)
qed

lemma run_calls_reachable:
  "reachable s \<Longrightarrow> \<exists>s' out. run_calls cs s = Some (s', out) \<and> reachable s'"
proof (induction cs arbitrary: s)
  case Nil
  then show ?case by simp
next
  case (Cons c cs)
  from exec_call_reachable [OF Cons.prems] obtain s1 out1
    where e: "exec_call c s = Some (s1, out1)" and r1: "reachable s1" by blast
  from Cons.IH [OF r1] obtain s2 out2
    where "run_calls cs s1 = Some (s2, out2)" and "reachable s2" by blast
  with e show ?case by simp
qed

lemma run_calls_init_reachable:
  "run_calls cs new_FTL \<noteq> None \<Longrightarrow> reachable (fst (the (run_calls cs new_FTL)))"
  using run_calls_reachable [OF reachable.init, of cs] by auto

lemma run_calls_table_other:
  assumes "run_calls cs s0 = Some (s, out)" and "\<forall>d. Write_Data lba d \<notin> set cs"
  shows "l2p_table s lba = l2p_table s0 lba"
  using assms
proof (induction cs arbitrary: s0 out)
  case Nil
  then show ?case by simp
next
  case (Cons c cs)
  from Cons.prems(1) obtain s1 out1 out2 where e: "exec_call c s0 = Some (s1, out1)"
    and r: "run_calls cs s1 = Some (s, out2)"
    by (auto split: option.splits prod.splits)
  have "l2p_table s1 lba = l2p_table s0 lba"
  proof (cases c)
    case (Write_Data l d)
    with Cons.prems(2) have "lba \<noteq> l" by auto
    with e Write_Data show ?thesis by (simp add: exec_call_def write_data_table_other)
  qed (use e in \<open>auto simp: exec_call_def\<close>)
  with Cons.IH [OF r] Cons.prems(2) show ?case by simp
qed

section \<open>Runs of writes from the constructor\<close>

lemma run_calls_append:
  "run_calls (cs1 @ cs2) s =
     (case run_calls cs1 s of
        None \<Rightarrow> None
      | Some (s1, out1) \<Rightarrow> map_option (\<lambda>(s2, out2). (s2, out1 @ out2)) (run_calls cs2 s1))"
proof (induction cs1 arbitrary: s)
  case Nil
  show ?case by (cases "run_calls cs2 s") auto
next
  case (Cons c cs1)
  show ?case
  proof (cases "exec_call c s")
    case None
    then show ?thesis by simp
  next
    case (Some r)
    obtain s1 out1 where r: "r = (s1, out1)" by (cases r)
    show ?thesis
      using Some r Cons.IH [of s1]
      by (auto split: option.splits simp: option.map_comp case_prod_unfold comp_def)
  qed
qed

lemma run_calls_snoc_write:
  assumes "run_calls (cs @ [Write_Data l d]) s = Some (s', out)"
  obtains s1 out1 out2 where "run_calls cs s = Some (s1, out1)"
    and "write_data l d s1 = Some (s', out2)" and "out = out1 @ out2"
  using assms by (auto simp: run_calls_append exec_call_def split: option.splits)

lemma used_pages_new_flash: "used_pages new_flash = 0"
  by (simp add: used_pages_def page_at_new_flash default_page_def)

text \<open>
  A run of \<open>n\<close> writes from the constructor, to any addresses: the run is defined, the
  state is reachable, \<open>min n NUM_PAGES\<close> pages are written and \<open>Disk Full!\<close> has
  been printed \<open>n - NUM_PAGES\<close> times.
\<close>

lemma run_writes_used:
  assumes "run_calls (map (\<lambda>(l, d). Write_Data l d) ws) new_FTL = Some (s, out)"
  shows "reachable s \<and> used_pages (flash_memory s) = min (length ws) NUM_PAGES \<and>
         length (filter (\<lambda>m. m = Disk_Full) out) = length ws - NUM_PAGES"
  using assms
proof (induction ws arbitrary: s out rule: rev_induct)
  case Nil
  then have "s = new_FTL" and "out = []" by simp_all
  then show ?case using reachable.init used_pages_new_flash by (simp add: new_FTL_def)
next
  case (snoc w ws)
  obtain l d where w: "w = (l, d)" by (cases w)
  from snoc.prems w obtain s1 out1 out2
    where r1: "run_calls (map (\<lambda>(l, d). Write_Data l d) ws) new_FTL = Some (s1, out1)"
      and wr: "write_data l d s1 = Some (s, out2)" and out: "out = out1 @ out2"
    by (auto elim: run_calls_snoc_write)
  from snoc.IH [OF r1] have reach1: "reachable s1"
    and used1: "used_pages (flash_memory s1) = min (length ws) NUM_PAGES"
    and full1: "length (filter (\<lambda>m. m = Disk_Full) out1) = length ws - NUM_PAGES"
    by simp_all
  have inv1: "ftl_inv s1" using reach1 by (rule reachable_ftl_inv)
  have ff: "first_free (flash_memory s1) =
      (if min (length ws) NUM_PAGES < NUM_PAGES then Some (min (length ws) NUM_PAGES) else None)"
    using first_free_used_pages [OF ftl_invD(6) [OF inv1]] used1 by simp
  have msgs: "length (filter (\<lambda>m. m = Disk_Full) out2) =
      (if first_free (flash_memory s1) = None then 1 else 0)"
    using write_data_messages [OF inv1 wr]
    by (auto split: option.splits)
  have "reachable s" using reach1 wr by (rule reachable.write_step)
  moreover have "used_pages (flash_memory s) = min (length (ws @ [w])) NUM_PAGES"
    using write_data_used_pages [OF inv1 wr] used1 ff by (auto split: if_splits)
  moreover have "length (filter (\<lambda>m. m = Disk_Full) out) = length (ws @ [w]) - NUM_PAGES"
    using msgs full1 ff out by (auto split: if_splits)
  ultimately show ?case by blast
qed

text \<open>
  Writes to one LBA from the constructor: the logical disk holds the value of the last
  write that found a page, which is write number \<open>min n NUM_PAGES\<close>.
\<close>

lemma run_same_lba_used:
  assumes "run_calls (map (Write_Data lba) ds) new_FTL = Some (s, out)"
  shows "reachable s \<and> used_pages (flash_memory s) = min (length ds) NUM_PAGES"
proof -
  have eq: "map (\<lambda>(l, d). Write_Data l d) (map (Pair lba) ds) = map (Write_Data lba) ds"
    by simp
  from run_writes_used [of "map (Pair lba) ds" s out] assms show ?thesis
    unfolding eq by simp
qed

lemma run_same_lba_disk:
  assumes "run_calls (map (Write_Data lba) ds) new_FTL = Some (s, out)" and "ds \<noteq> []"
  shows "disk_of s lba = Some (ds ! (min (length ds) NUM_PAGES - 1))"
  using assms
proof (induction ds arbitrary: s out rule: rev_induct)
  case Nil
  then show ?case by simp
next
  case (snoc d ds)
  from snoc.prems(1) obtain s1 out1 out2
    where r1: "run_calls (map (Write_Data lba) ds) new_FTL = Some (s1, out1)"
      and wr: "write_data lba d s1 = Some (s, out2)"
    by (auto elim: run_calls_snoc_write)
  from run_same_lba_used [OF r1]
  have reach1: "reachable s1" and used1: "used_pages (flash_memory s1) = min (length ds) NUM_PAGES"
    by simp_all
  have inv1: "ftl_inv s1" using reach1 by (rule reachable_ftl_inv)
  have ff: "first_free (flash_memory s1) =
      (if length ds < NUM_PAGES then Some (length ds) else None)"
    using first_free_used_pages [OF ftl_invD(6) [OF inv1]] used1 by simp
  note disk = write_data_refines_disk [OF inv1 wr]
  show ?case
  proof (cases "length ds < NUM_PAGES")
    case True
    with disk ff show ?thesis by (simp add: nth_append)
  next
    case False
    then have ne: "ds \<noteq> []" by auto
    from False NUM_PAGES_pos have "NUM_PAGES - 1 < length ds" by arith
    with snoc.IH [OF r1 ne] disk ff False show ?thesis by (simp add: nth_append)
  qed
qed

end
