(* ===== verification/Spec2Isabelle.thy ===== *)
theory Spec2Isabelle
  imports FTL_System
begin

text \<open>
  \<^bold>\<open>A verified model of the flash translation layer simulator \<^verbatim>\<open>src/ftl.cpp\<close>.\<close>

  \<^bold>\<open>The program.\<close> \<^verbatim>\<open>src/ftl.cpp\<close> simulates a flash device of \<open>TOTAL_BLOCKS = 4\<close>
  blocks of \<open>PAGES_PER_BLOCK = 4\<close> pages (\<open>struct PhysicalPage\<close> with the flags
  \<open>is_valid\<close> and \<open>is_free\<close>, \<open>struct Block\<close> with an \<open>erase_count\<close>) and a
  logical-to-physical table \<open>std::map<int, int> l2p_table\<close>, both owned by one
  \<open>FTL_Simulator\<close>. \<open>write_data(lba, data)\<close> first marks the page the table holds
  for \<open>lba\<close> invalid (\<open>invalidate_old_page\<close>), then scans blocks and pages in order
  for the first free page, writes it, stores its address \<open>b * 4 + p\<close> in the table
  and prints it; when no page is free it prints \<open>Disk Full!\<close> and returns.
  \<open>read_data(lba)\<close> splits the stored address with \<open>/\<close> and \<open>%\<close> and prints the
  page's data or \<open>not found\<close>. \<open>main\<close> writes LBA 10 and 20, overwrites 10 and
  reads both. There is no garbage collection, no erase, no trim and no wear levelling.

  \<^bold>\<open>The theories.\<close>
  \<^item> \<open>FTL_Prelude\<close>: \<open>cint\<close> (the C++ \<open>int\<close>), the \<open>ftl_geometry\<close> collection,
    C++ truncating division on non-negative values, lists of equally long rows, maps
    without shared values.
  \<^item> \<open>Flash\<close>: lines 6--23 and the address arithmetic of lines 56, 69--70, 80--81:
    the constants, the records \<open>PhysicalPage\<close> and \<open>Block\<close>, their initial values,
    \<open>encode_addr\<close>, \<open>block_of\<close>/\<open>page_of\<close> (\<open>sdiv\<close>/\<open>smod\<close>, the C++ operators),
    the checked page access \<open>page_ok\<close>/\<open>get_page\<close>/\<open>map_page\<close>, and the flat view
    \<open>page_at\<close> used by the proofs; the three lifecycle states \<open>Free\<close>, \<open>Valid\<close>,
    \<open>Stale\<close> are \<open>state_of\<close> of the two flags.
  \<^item> \<open>Allocation\<close>: the nested \<open>for\<close> loops of \<open>write_data\<close> (lines 44--63) as the
    terminating function \<open>find_free_page\<close> (lexicographic measure on the two loop
    counters), and the reference first fit \<open>first_free\<close>.
  \<^item> \<open>FTL\<close>: the class \<open>FTL_Simulator\<close> (lines 25--89) as a record; each method a
    function from the state to the new state and the printed lines (\<open>msg list\<close>);
    \<open>write_data\<close> is \<open>invalidate_old_page\<close> followed by \<open>allocate_and_write\<close>. An
    out-of-range \<open>std::vector\<close> index is undefined behaviour in C++: a method that
    indexes with an address taken from the table returns \<open>None\<close> when it is out of
    range.
  \<^item> \<open>FTL_Invariant\<close>: the invariant \<open>ftl_inv\<close> (shape of the array, no page both
    free and valid, table targets written and distinct, valid pages mapped, free pages a
    suffix of the flash, no erase, finite table) and its preservation by each half of
    \<open>write_data\<close>.
  \<^item> \<open>FTL_Refinement\<close>: the abstract specification \<open>disk_of\<close>, the logical disk as a
    partial map from LBA to data; \<open>write_data\<close> refines a map update when a page is
    free and the identity when none is; \<open>read_data\<close> refines lookup.
  \<^item> \<open>FTL_System\<close>: \<open>main\<close> as a list of calls, runs of calls, and the inductive set
    \<open>reachable\<close> of states reached from the constructor by writes; every reachable
    state satisfies \<open>ftl_inv\<close>.
  \<^item> this theory: the properties of the program as a whole, over reachable states.

  \<^bold>\<open>What is shown.\<close> Writes refine the abstract disk (C1) and a read after a write
  that found a page returns the data written (C2); reads refine lookup (C5); every
  page of a reachable state is Free, Valid or Stale, every mapped page has been
  written, every valid page is mapped (C3); no method reaches undefined behaviour
  (C4); no two LBAs share a page (C7); valid pages never outnumber mapped LBAs (C9);
  the written pages are a prefix of the flash (C12) and pages never become free again
  (C13); the scan is first fit (C8) and stops in range (C16); address encoding
  round-trips (C10) and stays in \<open>[0, 16)\<close> (C11); each write prints what C14 says;
  an LBA never written reads as not found (C15). Over whole runs from the constructor:
  \<open>n\<close> writes fill exactly \<open>min n 16\<close> pages and print \<open>Disk Full!\<close> \<open>n - 16\<close>
  times (C17); repeated writes to one LBA read back the last value, or the 16th once
  the flash is full (C19). \<open>invalidate_old_page\<close> has undefined behaviour exactly for
  addresses outside \<open>[0, 16)\<close> (C18), which C4 shows no reachable table holds.

  \<^bold>\<open>Where the code and the specification part.\<close> \<open>write_data\<close> marks the old page
  stale before it looks for a free page. When the flash is full, an overwrite
  therefore leaves the table pointing at a stale page and the write is lost with only
  a message (C6): the specification's rules that the mapped page is always Valid,
  that the valid pages equal the live entries, and that the old page is invalidated
  only after the new one is written all fail there. Nothing frees a page, so after
  16 successful writes every later write fails (C12, C13).

  \<^bold>\<open>Not modelled.\<close> The text of \<open>std::cout\<close> lines is kept as constructors of
  \<open>msg\<close>, not as characters (the leading newlines of two banners are dropped);
  \<open>INVALID_ADDR\<close> is defined and never used by the source. The garbage collector,
  trim, the watermark allocation policy, wear levelling and the concurrency model of
  the specification have no code in \<^verbatim>\<open>src/\<close> and are not modelled. No fuel or bound
  is needed: the only loops are the two \<open>for\<close> loops, whose termination is proved.
\<close>

abbreviation main_state :: FTL_Simulator where
  "main_state \<equiv> fst (the (run_calls main_calls new_FTL))"

abbreviation full_state :: FTL_Simulator where
  "full_state \<equiv> fst (the (run_calls (replicate 16 (Write_Data 0 7)) new_FTL))"

section \<open>Concrete states used by the witnesses\<close>

lemma main_state_reachable: "reachable main_state"
proof -
  have "run_calls main_calls new_FTL \<noteq> None" by code_simp
  then show ?thesis by (rule run_calls_init_reachable)
qed

lemma full_state_reachable: "reachable full_state"
proof -
  have "run_calls (replicate 16 (Write_Data 0 7)) new_FTL \<noteq> None" by code_simp
  then show ?thesis by (rule run_calls_init_reachable)
qed

section \<open>Writes and reads against the abstract disk\<close>

text \<open>C1: on every reachable state a \<open>write_data\<close> changes the logical disk as the
  abstract map update \<open>disk(lba := d)\<close> when the flash has a free page, and leaves it
  unchanged when it has none.\<close>

theorem write_refines_disk:
  assumes "reachable s" and "write_data lba d s = Some (s', out)"
  shows "disk_of s' =
           (if first_free (flash_memory s) = None then disk_of s else (disk_of s)(lba \<mapsto> d))"
  using write_data_refines_disk [OF reachable_ftl_inv [OF assms(1)] assms(2)] .

theorem write_refines_disk_witness:
  "reachable main_state \<and> first_free (flash_memory main_state) = Some 3 \<and>
   disk_of (fst (the (write_data 30 900 main_state))) = (disk_of main_state)(30 \<mapsto> 900)"
proof -
  have w: "write_data 30 900 main_state \<noteq> None" by code_simp
  have ff: "first_free (flash_memory main_state) = Some 3" by code_simp
  show ?thesis
    using write_refines_disk [OF main_state_reachable Some_pair_collapse [OF w]] ff
      main_state_reachable by simp
qed

text \<open>C2: reading an LBA right after a write to it that found a free page prints the
  data just written, whether the LBA was mapped before or not.\<close>

theorem read_after_write:
  assumes "reachable s" and "first_free (flash_memory s) \<noteq> None"
    and "write_data lba d s = Some (s', out)"
  shows "read_data lba s' = Some [Read_Value lba d]"
proof -
  have inv: "ftl_inv s" using assms(1) by (rule reachable_ftl_inv)
  have "disk_of s' lba = Some d"
    using write_data_refines_disk [OF inv assms(3)] assms(2) by simp
  with read_data_disk [OF write_data_inv [OF inv assms(3)]] show ?thesis by simp
qed

theorem read_after_write_witness:
  "reachable main_state \<and> first_free (flash_memory main_state) \<noteq> None \<and>
   read_data 10 (fst (the (write_data 10 777 main_state))) = Some [Read_Value 10 777]"
proof -
  have w: "write_data 10 777 main_state \<noteq> None" by code_simp
  have ff: "first_free (flash_memory main_state) \<noteq> None" by code_simp
  show ?thesis
    using read_after_write [OF main_state_reachable ff Some_pair_collapse [OF w]] ff
      main_state_reachable by simp
qed

text \<open>C5: on every reachable state \<open>read_data\<close> prints the value the abstract disk
  holds for the LBA, or \<open>not found\<close> when the disk holds none.\<close>

theorem read_refines_disk:
  assumes "reachable s"
  shows "read_data lba s =
           Some [case disk_of s lba of None \<Rightarrow> Not_Found lba | Some v \<Rightarrow> Read_Value lba v]"
  using read_data_disk [OF reachable_ftl_inv [OF assms]] .

theorem read_refines_disk_witness:
  "reachable main_state \<and> disk_of main_state 20 = Some 700 \<and>
   read_data 20 main_state = Some [Read_Value 20 700]"
proof -
  have d: "disk_of main_state 20 = Some 700" by code_simp
  show ?thesis using read_refines_disk [OF main_state_reachable, of 20] d main_state_reachable
    by simp
qed

section \<open>The state of the flash\<close>

text \<open>C3: in every reachable state each page is Free, Valid or Stale (never both free
  and valid), every address in the table is a page of the flash that has been written,
  and every Valid page is the current page of some LBA.\<close>

theorem reachable_page_states:
  assumes "reachable s"
  shows "(\<forall>a < NUM_PAGES. state_of (page_at (flash_memory s) a) \<in> {Free, Valid, Stale}) \<and>
         (\<forall>lba a. l2p_table s lba = Some a \<longrightarrow>
            0 \<le> a \<and> a < int NUM_PAGES \<and> state_of (page_at (flash_memory s) (nat a)) \<noteq> Free) \<and>
         (\<forall>a < NUM_PAGES. state_of (page_at (flash_memory s) a) = Valid \<longrightarrow>
            int a \<in> ran (l2p_table s))"
proof -
  note I = ftl_invD [OF reachable_ftl_inv [OF assms]]
  have "\<forall>a < NUM_PAGES. state_of (page_at (flash_memory s) a) \<in> {Free, Valid, Stale}"
    using I(2) unfolding no_torn_pages_def by (auto simp: state_of_def split: if_splits)
  moreover have "\<forall>lba a. l2p_table s lba = Some a \<longrightarrow>
      0 \<le> a \<and> a < int NUM_PAGES \<and> state_of (page_at (flash_memory s) (nat a)) \<noteq> Free"
    using I(3) unfolding map_targets_used_def state_of_iff by blast
  moreover have "\<forall>a < NUM_PAGES. state_of (page_at (flash_memory s) a) = Valid \<longrightarrow>
      int a \<in> ran (l2p_table s)"
    using I(5) unfolding valid_pages_mapped_def state_of_iff by blast
  ultimately show ?thesis by blast
qed

theorem reachable_page_states_witness:
  "reachable full_state \<and> state_of (page_at (flash_memory full_state) 15) = Valid \<and>
   int 15 \<in> ran (l2p_table full_state)"
proof -
  have v: "state_of (page_at (flash_memory full_state) 15) = Valid" by code_simp
  have "(15::nat) < NUM_PAGES" by (simp add: ftl_geometry)
  with reachable_page_states [OF full_state_reachable] v full_state_reachable
  show ?thesis by blast
qed

text \<open>C4: on a reachable state neither \<open>write_data\<close> nor \<open>read_data\<close> indexes the
  flash array out of range: both return a result for every LBA and datum.\<close>

theorem reachable_no_undefined_behaviour:
  assumes "reachable s"
  shows "write_data lba d s \<noteq> None \<and> read_data lba s \<noteq> None"
  using reachable_write_defined [OF assms, of lba d] read_data_defined [OF reachable_ftl_inv [OF assms]]
  by auto

theorem reachable_no_undefined_behaviour_witness:
  "reachable full_state \<and> write_data 0 8 full_state \<noteq> None \<and> read_data 0 full_state \<noteq> None"
  using reachable_no_undefined_behaviour [OF full_state_reachable, of 0 8] full_state_reachable
  by simp

text \<open>C6: an overwrite of a mapped LBA on a full flash marks the LBA's page stale and
  then fails: it prints the invalidation and \<open>Disk Full!\<close>, the table still sends
  the LBA to the now Stale page, and the logical disk is unchanged (the stale page
  still holds the old data). The code invalidates before it allocates.\<close>

theorem overwrite_full_flash_stale_mapping:
  assumes "reachable s" and "l2p_table s lba = Some a"
    and "first_free (flash_memory s) = None" and "write_data lba d s = Some (s', out)"
  shows "out = [Marked_Invalid a, Disk_Full] \<and> l2p_table s' lba = Some a \<and>
         state_of (page_at (flash_memory s') (nat a)) = Stale \<and> disk_of s' = disk_of s"
proof -
  have inv: "ftl_inv s" using assms(1) by (rule reachable_ftl_inv)
  have out: "out = [Marked_Invalid a, Disk_Full]"
    using write_data_messages [OF inv assms(4)] assms(2,3) by simp
  have disk: "disk_of s' = disk_of s"
    using write_data_refines_disk [OF inv assms(4)] assms(3) by simp
  from inv show ?thesis
  proof (cases rule: write_data_cases [of s lba d])
    case unmapped
    with assms(2) show ?thesis by simp
  next
    case (mapped n s1)
    have a: "a = int n" using assms(2) mapped(1) by simp
    have "first_free (flash_memory s1) = first_free (flash_memory s)"
      using mapped(6) by (intro first_free_same_free) simp
    with assms(3,4) mapped(7) have s': "s' = s1" by (simp add: allocate_and_write_full)
    have "\<not> is_free (page_at (flash_memory s) n)"
      using ftl_invD(3) [OF inv] mapped(1) unfolding map_targets_used_def by force
    then have "state_of (page_at (flash_memory s') n) = Stale"
      using mapped(2,6) s' by (simp add: state_of_iff)
    with out disk a s' mapped(1,5) show ?thesis by simp
  qed
qed

theorem overwrite_full_flash_stale_mapping_witness:
  "reachable full_state \<and> l2p_table full_state 0 = Some 15 \<and>
   first_free (flash_memory full_state) = None \<and>
   snd (the (write_data 0 8 full_state)) = [Marked_Invalid 15, Disk_Full] \<and>
   state_of (page_at (flash_memory (fst (the (write_data 0 8 full_state)))) 15) = Stale \<and>
   disk_of (fst (the (write_data 0 8 full_state))) = disk_of full_state"
proof -
  have m: "l2p_table full_state 0 = Some 15" by code_simp
  have ff: "first_free (flash_memory full_state) = None" by code_simp
  have w: "write_data 0 8 full_state \<noteq> None" by code_simp
  show ?thesis
    using overwrite_full_flash_stale_mapping [OF full_state_reachable m ff Some_pair_collapse [OF w]]
      full_state_reachable m ff by simp
qed

text \<open>C7: in every reachable state no two LBAs are mapped to the same physical page.\<close>

theorem l2p_injective:
  assumes "reachable s" and "l2p_table s l1 = Some a" and "l2p_table s l2 = Some a"
  shows "l1 = l2"
  using ftl_invD(4) [OF reachable_ftl_inv [OF assms(1)]] assms(2,3)
  unfolding map_injective_def by blast

theorem l2p_injective_witness:
  "reachable main_state \<and> l2p_table main_state 10 = Some 2 \<and> (10::cint) = 10"
proof -
  have m: "l2p_table main_state 10 = Some 2" by code_simp
  show ?thesis using l2p_injective [OF main_state_reachable m m] main_state_reachable m by simp
qed

text \<open>C9: in every reachable state there are at most as many Valid pages as mapped
  LBAs. (The specification asks for equality; C6 shows a state where a mapped LBA has
  no Valid page.)\<close>

theorem valid_pages_le_mapped:
  assumes "reachable s"
  shows "card {a. a < NUM_PAGES \<and> state_of (page_at (flash_memory s) a) = Valid} \<le>
         card (dom (l2p_table s))"
proof -
  note I = ftl_invD [OF reachable_ftl_inv [OF assms]]
  let ?V = "{a. a < NUM_PAGES \<and> state_of (page_at (flash_memory s) a) = Valid}"
  have sub: "int ` ?V \<subseteq> ran (l2p_table s)"
    using I(5) unfolding valid_pages_mapped_def state_of_iff by blast
  have fin: "finite (ran (l2p_table s))" using I(8) by (rule finite_ran)
  have "card ?V = card (int ` ?V)" by (simp add: card_image inj_on_def)
  also have "\<dots> \<le> card (ran (l2p_table s))" using fin sub by (rule card_mono)
  also have "\<dots> \<le> card (dom (l2p_table s))" using I(8) by (rule card_ran_le_card_dom)
  finally show ?thesis .
qed

theorem valid_pages_le_mapped_witness:
  "reachable full_state \<and>
   card {a. a < NUM_PAGES \<and> state_of (page_at (flash_memory full_state) a) = Valid} \<le>
   card (dom (l2p_table full_state))"
  using valid_pages_le_mapped [OF full_state_reachable] full_state_reachable by simp

section \<open>No reclamation\<close>

text \<open>C12: in every reachable state the written pages are exactly the first \<open>k\<close>
  physical addresses for some \<open>k\<close>: the first-fit scan fills the flash from the front
  and nothing makes a page free again.\<close>

theorem written_pages_prefix:
  assumes "reachable s"
  shows "\<exists>k \<le> NUM_PAGES. \<forall>a < NUM_PAGES. state_of (page_at (flash_memory s) a) = Free \<longleftrightarrow> k \<le> a"
proof -
  let ?fm = "flash_memory s"
  note I = ftl_invD [OF reachable_ftl_inv [OF assms]]
  have free_iff: "\<And>a. a < NUM_PAGES \<Longrightarrow> state_of (page_at ?fm a) = Free \<longleftrightarrow> is_free (page_at ?fm a)"
    using I(2) unfolding no_torn_pages_def state_of_iff by blast
  show ?thesis
  proof (cases "first_free ?fm")
    case None
    then have "\<forall>a < NUM_PAGES. \<not> is_free (page_at ?fm a)" by (simp add: first_free_None)
    with free_iff show ?thesis by (intro exI [of _ NUM_PAGES]) auto
  next
    case (Some a0)
    note ff = first_free_Some [OF Some]
    have "\<forall>a < NUM_PAGES. is_free (page_at ?fm a) \<longleftrightarrow> a0 \<le> a"
    proof (intro allI impI)
      fix a
      assume a: "a < NUM_PAGES"
      show "is_free (page_at ?fm a) \<longleftrightarrow> a0 \<le> a"
      proof
        assume "is_free (page_at ?fm a)"
        with ff(3) show "a0 \<le> a" using not_le by blast
      next
        assume "a0 \<le> a"
        with I(6) a ff(2) show "is_free (page_at ?fm a)" unfolding free_suffix_def by blast
      qed
    qed
    with ff(1) free_iff show ?thesis by (intro exI [of _ a0]) auto
  qed
qed

theorem written_pages_prefix_witness:
  "reachable main_state \<and>
   (\<exists>k \<le> NUM_PAGES. \<forall>a < NUM_PAGES. state_of (page_at (flash_memory main_state) a) = Free \<longleftrightarrow> k \<le> a)"
  using written_pages_prefix [OF main_state_reachable] main_state_reachable by blast

text \<open>C13: a write never makes a page free: every page that is Free after a
  \<open>write_data\<close> on a reachable state was Free before it. There is no garbage
  collection or erase in the code.\<close>

theorem free_pages_never_return:
  assumes "reachable s" and "write_data lba d s = Some (s', out)" and "a < NUM_PAGES"
    and "state_of (page_at (flash_memory s') a) = Free"
  shows "state_of (page_at (flash_memory s) a) = Free"
proof -
  have inv: "ftl_inv s" using assms(1) by (rule reachable_ftl_inv)
  have "is_free (page_at (flash_memory s) a)"
    using write_data_free_flags [OF inv assms(2,3)] assms(4) by (simp add: state_of_iff)
  with ftl_invD(2) [OF inv] assms(3) show ?thesis
    unfolding no_torn_pages_def state_of_iff by blast
qed

theorem free_pages_never_return_witness:
  "reachable main_state \<and> (5::nat) < NUM_PAGES \<and>
   state_of (page_at (flash_memory (fst (the (write_data 30 900 main_state)))) 5) = Free \<and>
   state_of (page_at (flash_memory main_state) 5) = Free"
proof -
  have w: "write_data 30 900 main_state \<noteq> None" by code_simp
  have f: "state_of (page_at (flash_memory (fst (the (write_data 30 900 main_state)))) 5) = Free"
    by code_simp
  have a: "(5::nat) < NUM_PAGES" by (simp add: ftl_geometry)
  show ?thesis
    using free_pages_never_return [OF main_state_reachable Some_pair_collapse [OF w] a] f a
      main_state_reachable by simp
qed

text \<open>C14: a \<open>write_data\<close> on a reachable state prints the invalidation of the LBA's
  old page when the LBA is mapped, then either the address of the first free page, where
  the data went, or \<open>Disk Full!\<close>.\<close>

theorem write_data_output:
  assumes "reachable s" and "write_data lba d s = Some (s', out)"
  shows "out = (case l2p_table s lba of None \<Rightarrow> [] | Some a \<Rightarrow> [Marked_Invalid a]) @
               [case first_free (flash_memory s) of
                  None \<Rightarrow> Disk_Full | Some a \<Rightarrow> Written lba (int a)]"
  using write_data_messages [OF reachable_ftl_inv [OF assms(1)] assms(2)] .

theorem write_data_output_witness:
  "reachable main_state \<and> l2p_table main_state 10 = Some 2 \<and>
   first_free (flash_memory main_state) = Some 3 \<and>
   snd (the (write_data 10 5 main_state)) = [Marked_Invalid 2, Written 10 3]"
proof -
  have w: "write_data 10 5 main_state \<noteq> None" by code_simp
  have m: "l2p_table main_state 10 = Some 2" by code_simp
  have ff: "first_free (flash_memory main_state) = Some 3" by code_simp
  show ?thesis
    using write_data_output [OF main_state_reachable Some_pair_collapse [OF w]] m ff
      main_state_reachable by simp
qed

text \<open>C15: after any run of calls from the constructed simulator that never writes an
  LBA, reading that LBA prints \<open>not found\<close>.\<close>

theorem unwritten_lba_not_found:
  assumes "run_calls cs new_FTL = Some (s, out)" and "\<forall>d. Write_Data lba d \<notin> set cs"
  shows "read_data lba s = Some [Not_Found lba]"
proof -
  have "l2p_table s lba = l2p_table new_FTL lba" using assms by (rule run_calls_table_other)
  then show ?thesis by (simp add: new_FTL_def read_data_unmapped)
qed

theorem unwritten_lba_not_found_witness:
  "run_calls main_calls new_FTL \<noteq> None \<and> (\<forall>d. Write_Data 30 d \<notin> set main_calls) \<and>
   read_data 30 main_state = Some [Not_Found 30]"
proof -
  have r: "run_calls main_calls new_FTL \<noteq> None" by code_simp
  have nw: "\<forall>d. Write_Data 30 d \<notin> set main_calls" by (simp add: main_calls_def)
  show ?thesis using unwritten_lba_not_found [OF Some_pair_collapse [OF r] nw] r nw by simp
qed

section \<open>Runs of the program\<close>

text \<open>C17: from the constructed simulator, any sequence of \<open>n\<close> writes (any LBAs, any
  data) runs to the end; exactly \<open>min n 16\<close> pages get written and \<open>Disk Full!\<close> is
  printed once for each of the \<open>n - 16\<close> writes after the flash is full.\<close>

theorem writes_capacity:
  "\<exists>s out. run_calls (map (\<lambda>(l, d). Write_Data l d) ws) new_FTL = Some (s, out) \<and>
     used_pages (flash_memory s) = min (length ws) NUM_PAGES \<and>
     length (filter (\<lambda>m. m = Disk_Full) out) = length ws - NUM_PAGES"
proof -
  obtain s out where r: "run_calls (map (\<lambda>(l, d). Write_Data l d) ws) new_FTL = Some (s, out)"
    using run_calls_reachable [OF reachable.init] by blast
  with run_writes_used [OF r] show ?thesis by blast
qed

text \<open>C19: after writing the values \<open>ds\<close> to one LBA from the constructed simulator,
  a read of the LBA prints the last value when at most 16 writes were made, and the
  16th value otherwise: every write after the flash is full is lost.\<close>

theorem overwrites_read_back:
  assumes "run_calls (map (Write_Data lba) ds) new_FTL = Some (s, out)" and "ds \<noteq> []"
  shows "read_data lba s = Some [Read_Value lba (ds ! (min (length ds) NUM_PAGES - 1))]"
proof -
  have "reachable s" using run_same_lba_used [OF assms(1)] by simp
  with read_data_disk [OF reachable_ftl_inv] run_same_lba_disk [OF assms] show ?thesis by simp
qed

theorem overwrites_read_back_witness:
  "run_calls (map (Write_Data 5) [1..20]) new_FTL \<noteq> None \<and>
   read_data 5 (fst (the (run_calls (map (Write_Data 5) [1..20]) new_FTL))) =
     Some [Read_Value 5 16]"
proof -
  have r: "run_calls (map (Write_Data 5) [1..20]) new_FTL \<noteq> None" by code_simp
  have "[1..20::int] \<noteq> []" by simp
  from overwrites_read_back [OF Some_pair_collapse [OF r] this] r show ?thesis
    by (simp add: ftl_geometry)
qed

end
